theory Spec2Isabelle
  imports Main "HOL-Library.AList"
begin

section \<open>Preprocessing layers of \<^verbatim>\<open>autokeras/keras_layers.py\<close>\<close>

text \<open>
  The module defines two Keras preprocessing layers, \<^verbatim>\<open>MultiCategoryEncoding\<close> and
  \<^verbatim>\<open>TextVectorizationWithTokenizer\<close>, on top of tensor operations of the host
  framework. The layers' own code (the loops, the dispatch on the encoding tag, the
  checks) is embedded below as HOL functions. The framework's primitives that the code
  calls are either written out where their meaning is structural (\<^verbatim>\<open>tf.split\<close>,
  \<^verbatim>\<open>tf.slice\<close>, \<^verbatim>\<open>tf.where\<close>, \<^verbatim>\<open>Concatenate\<close>, \<^verbatim>\<open>to_tensor\<close>) or taken as parameters
  (string to number conversion, the \<^verbatim>\<open>StringLookup\<close> layer, the tokenizer).
\<close>

subsection \<open>Errors and tensors\<close>

datatype error =
  InvalidArgumentError
  | ValueError
  | IndexError
  | TypeError
  | AttributeError
  | FailedPreconditionError
  | NameError string

text \<open>
  A batch is a tensor of rank 2. The number of columns (the last dimension) is part of
  the value, so that a batch without rows still has a last dimension.
\<close>

record 'a tensor =
  ncols :: nat
  rows :: "'a list list"

text \<open>
  Every row of a tensor has as many values as the tensor has columns. None of the
  results below depends on it: they hold of any value of the record.
\<close>

definition wf_tensor :: "'a tensor \<Rightarrow> bool" where
  "wf_tensor t = list_all (\<lambda>r. length r = ncols t) (rows t)"

definition tmap :: "('a \<Rightarrow> 'b) \<Rightarrow> 'a tensor \<Rightarrow> 'b tensor" where
  "tmap f t = \<lparr>ncols = ncols t, rows = map (map f) (rows t)\<rparr>"

text \<open>The width-1 tensor holding column \<open>j\<close> of a batch.\<close>

definition column :: "'a tensor \<Rightarrow> nat \<Rightarrow> 'a tensor" where
  "column t j = \<lparr>ncols = 1, rows = map (\<lambda>r. [r ! j]) (rows t)\<rparr>"

text \<open>
  \<^verbatim>\<open>tf.split(x, [1] * n, axis=-1)\<close>: the operation raises on an empty list of sizes,
  and when the sizes do not add up to the last dimension; the result is the list of the
  \<open>n\<close> columns.
\<close>

definition split :: "'a tensor \<Rightarrow> nat \<Rightarrow> error + 'a tensor list" where
  "split x n =
     (if n = 0 then Inl InvalidArgumentError
      else if ncols x = n then Inr (map (column x) [0..<n])
      else Inl InvalidArgumentError)"

text \<open>
  \<^verbatim>\<open>tf.slice(x, [0, index], [-1, 1])\<close>: all rows, one column starting at \<open>index\<close>;
  it raises when the column is out of range.
\<close>

definition slice :: "'a tensor \<Rightarrow> nat \<Rightarrow> error + 'a tensor" where
  "slice x index = (if index < ncols x then Inr (column x index) else Inl InvalidArgumentError)"

text \<open>
  \<^verbatim>\<open>tf.keras.layers.Concatenate()(nodes)\<close>, along the last axis. The layer refuses a
  list of fewer than two tensors, and tensors whose other dimensions differ.
\<close>

fun concat_rows :: "'a list list list \<Rightarrow> 'a list list" where
  "concat_rows [] = []"
| "concat_rows [rs] = rs"
| "concat_rows (rs # rss) = map (\<lambda>(r, r'). r @ r') (zip rs (concat_rows rss))"

definition Concatenate :: "'a tensor list \<Rightarrow> error + 'a tensor" where
  "Concatenate nodes =
     (if length nodes < 2 then Inl ValueError
      else if \<not> list_all (\<lambda>t. length (rows t) = length (rows (hd nodes))) nodes
      then Inl ValueError
      else Inr \<lparr>ncols = sum_list (map ncols nodes), rows = concat_rows (map rows nodes)\<rparr>)"

text \<open>\<^verbatim>\<open>tf.where(cond, x, y)\<close> on three tensors of one shape, element by element.\<close>

definition tf_where :: "bool tensor \<Rightarrow> 'a tensor \<Rightarrow> 'a tensor \<Rightarrow> 'a tensor" where
  "tf_where c x y =
     \<lparr>ncols = ncols c,
      rows = map (\<lambda>(cr, xr, yr). map (\<lambda>(cv, xv, yv). if cv then xv else yv) (zip cr (zip xr yr)))
               (zip (rows c) (zip (rows x) (rows y)))\<rparr>"

text \<open>
  \<^verbatim>\<open>nest.flatten(inputs)\<close>: the inputs of a layer are a tensor or a nested sequence of
  tensors; flattening lists the tensors from left to right.
\<close>

datatype 'a nest = Leaf 'a | Seq "'a nest list"

fun flatten :: "'a nest \<Rightarrow> 'a list" where
  "flatten (Leaf x) = [x]"
| "flatten (Seq ns) = concat (map flatten ns)"

subsection \<open>The framework's primitives\<close>

text \<open>
  The numbers of the framework (\<^verbatim>\<open>float32\<close>) are a type parameter \<open>'n\<close>, the state of a
  \<^verbatim>\<open>StringLookup\<close> layer is a type parameter \<open>'l\<close>, and the values of the base layer's
  configuration are a type parameter \<open>'c\<close>.
  \<^item> \<open>to_number\<close> is \<^verbatim>\<open>tf.strings.to_number(_, tf.float32)\<close> on one string; \<open>None\<close>
    is the string that does not denote a number, on which the operation raises;
  \<^item> \<open>is_nan\<close> is \<^verbatim>\<open>tf.math.is_nan\<close> and \<open>zero\<close> the element of \<^verbatim>\<open>tf.zeros_like\<close>;
  \<^item> \<open>cast\<close> is \<^verbatim>\<open>tf.cast(_, tf.float32)\<close> on one index;
  \<^item> \<open>StringLookup\<close> is a new \<^verbatim>\<open>preprocessing.StringLookup()\<close>, \<open>sl_build\<close> its
    \<^verbatim>\<open>build\<close>, \<open>sl_adapt\<close> its \<^verbatim>\<open>adapt\<close> on a dataset (a list of batches);
    \<open>sl_ready\<close> tells whether the layer's table has been initialized, which a layer
    that was never adapted lacks, and \<open>sl_lookup\<close> is the index that the table gives
    one string. Calling the layer reads the table and does not change the layer;
  \<^item> \<open>layer_config\<close> is the configuration that the base class keeps of a layer made
    with given keyword arguments (its name, given or generated, \<^verbatim>\<open>trainable\<close>,
    \<^verbatim>\<open>dtype\<close>), and returns from \<^verbatim>\<open>get_config\<close>.
\<close>

record ('n, 'l, 'c) framework =
  to_number :: "string \<Rightarrow> 'n option"
  is_nan :: "'n \<Rightarrow> bool"
  zero :: "'n"
  cast :: "int \<Rightarrow> 'n"
  StringLookup :: "'l"
  sl_build :: "'l \<Rightarrow> 'l"
  sl_adapt :: "'l \<Rightarrow> string tensor list \<Rightarrow> 'l"
  sl_ready :: "'l \<Rightarrow> bool"
  sl_lookup :: "'l \<Rightarrow> string \<Rightarrow> int"
  layer_config :: "(string \<times> 'c) list \<Rightarrow> (string \<times> 'c) list"

text \<open>The tensor operations built from them.\<close>

definition strings_to_number ::
  "('n, 'l, 'c) framework \<Rightarrow> string tensor \<Rightarrow> error + 'n tensor" where
  "strings_to_number fw t =
     (if list_all (list_all (\<lambda>s. to_number fw s \<noteq> None)) (rows t)
      then Inr (tmap (\<lambda>s. the (to_number fw s)) t)
      else Inl InvalidArgumentError)"

definition zeros_like :: "('n, 'l, 'c) framework \<Rightarrow> 'n tensor \<Rightarrow> 'n tensor" where
  "zeros_like fw t = tmap (\<lambda>_. zero fw) t"

text \<open>
  \<^verbatim>\<open>encoding_layer(input_node)\<close>, the call of a \<^verbatim>\<open>StringLookup\<close> on a tensor of
  strings: it raises when the table of the layer has not been initialized, and gives
  the index of every string otherwise.
\<close>

definition sl_call ::
  "('n, 'l, 'c) framework \<Rightarrow> 'l \<Rightarrow> string tensor \<Rightarrow> error + int tensor" where
  "sl_call fw encoding_layer t =
     (if sl_ready fw encoding_layer then Inr (tmap (sl_lookup fw encoding_layer) t)
      else Inl FailedPreconditionError)"

subsection \<open>\<^verbatim>\<open>MultiCategoryEncoding\<close>\<close>

definition INT_tag :: string where "INT_tag = ''int''"
definition NONE :: string where "NONE = ''none''"
definition ONE_HOT :: string where "ONE_HOT = ''one-hot''"

text \<open>
  A value of a layer configuration: the encoding list, or a value of the base layer's
  configuration (name, dtype, ...), which is a type parameter.
\<close>

datatype 'c config_value = EncodingValue "string list" | BaseValue 'c

text \<open>
  The layer object: its two attributes, and the configuration that the base class made
  in \<^verbatim>\<open>super().__init__(**kwargs)\<close> and returns from \<^verbatim>\<open>super().get_config()\<close>.
  An entry of \<open>encoding_layers\<close> is \<open>None\<close> or a \<^verbatim>\<open>StringLookup\<close>.
\<close>

record ('l, 'c) mce =
  encoding :: "string list"
  encoding_layers :: "'l option list"
  base_config :: "(string \<times> 'c) list"

text \<open>The body of the loop of \<^verbatim>\<open>__init__\<close>: one step appends at most one layer.\<close>

definition init_step ::
  "('n, 'l, 'c) framework \<Rightarrow> 'l option list \<Rightarrow> string \<Rightarrow> 'l option list" where
  "init_step fw layers e =
     (if e = NONE then layers @ [None]
      else if e = INT_tag then layers @ [Some (StringLookup fw)]
      else if e = ONE_HOT then layers @ [None]
      else layers)"

definition init ::
  "('n, 'l, 'c) framework \<Rightarrow> string list \<Rightarrow> (string \<times> 'c) list \<Rightarrow> ('l, 'c) mce" where
  "init fw enc kwargs =
     \<lparr>encoding = enc, encoding_layers = foldl (init_step fw) [] enc,
      base_config = layer_config fw kwargs\<rparr>"

definition build :: "('n, 'l, 'c) framework \<Rightarrow> ('l, 'c) mce \<Rightarrow> ('l, 'c) mce" where
  "build fw self =
     self\<lparr>encoding_layers := map (map_option (sl_build fw)) (encoding_layers self)\<rparr>"

text \<open>
  The loop of \<^verbatim>\<open>call\<close> over \<^verbatim>\<open>zip(split_inputs, self.encoding_layers)\<close>: the output
  nodes, or the error that stopped it.
\<close>

fun call_loop ::
  "('n, 'l, 'c) framework \<Rightarrow> (string tensor \<times> 'l option) list \<Rightarrow> error + 'n tensor list" where
  "call_loop fw [] = Inr []"
| "call_loop fw ((input_node, None) # rest) =
     (case strings_to_number fw input_node of
        Inl e \<Rightarrow> Inl e
      | Inr number \<Rightarrow>
          (let imputed = tf_where (tmap (is_nan fw) number) (zeros_like fw number) number
           in case call_loop fw rest of
                Inl e \<Rightarrow> Inl e
              | Inr output_nodes \<Rightarrow> Inr (imputed # output_nodes)))"
| "call_loop fw ((input_node, Some encoding_layer) # rest) =
     (case sl_call fw encoding_layer input_node of
        Inl e \<Rightarrow> Inl e
      | Inr indices \<Rightarrow>
          (case call_loop fw rest of
             Inl e \<Rightarrow> Inl e
           | Inr output_nodes \<Rightarrow> Inr (tmap (cast fw) indices # output_nodes)))"

text \<open>
  \<^verbatim>\<open>call\<close>: the result or the error, and the layer object afterwards. The method
  assigns to no attribute of \<^verbatim>\<open>self\<close>, and the calls of the lookup layers read them.
\<close>

definition call ::
  "('n, 'l, 'c) framework \<Rightarrow> ('l, 'c) mce \<Rightarrow> string tensor nest \<Rightarrow>
     (error + 'n tensor) \<times> ('l, 'c) mce" where
  "call fw self inputs =
     (case flatten inputs of
        [] \<Rightarrow> (Inl IndexError, self)
      | input_nodes # _ \<Rightarrow>
          (case split input_nodes (length (encoding self)) of
             Inl e \<Rightarrow> (Inl e, self)
           | Inr split_inputs \<Rightarrow>
               (case call_loop fw (zip split_inputs (encoding_layers self)) of
                  Inl e \<Rightarrow> (Inl e, self)
                | Inr output_nodes \<Rightarrow>
                    (if length output_nodes = 1 then (Inr (output_nodes ! 0), self)
                     else (Concatenate output_nodes, self)))))"

text \<open>
  \<^verbatim>\<open>data.map(f)\<close> on a dataset, a list of batches: \<open>f\<close> on every batch, and the first
  error when \<open>f\<close> raises on one.
\<close>

fun dataset_map :: "('a \<Rightarrow> error + 'b) \<Rightarrow> 'a list \<Rightarrow> error + 'b list" where
  "dataset_map f [] = Inr []"
| "dataset_map f (x # xs) =
     (case f x of
        Inl e \<Rightarrow> Inl e
      | Inr y \<Rightarrow> (case dataset_map f xs of Inl e \<Rightarrow> Inl e | Inr ys \<Rightarrow> Inr (y # ys)))"

text \<open>
  The loop of \<^verbatim>\<open>adapt\<close> over \<^verbatim>\<open>enumerate(self.encoding_layers)\<close>, from position
  \<open>index\<close> on: the error that stopped it, if any, and the layers as it left them.
\<close>

fun adapt_loop ::
  "('n, 'l, 'c) framework \<Rightarrow> string tensor list \<Rightarrow> nat \<Rightarrow> 'l option list \<Rightarrow>
     error option \<times> 'l option list" where
  "adapt_loop fw data index [] = (None, [])"
| "adapt_loop fw data index (None # rest) =
     (let (e, ls) = adapt_loop fw data (Suc index) rest in (e, None # ls))"
| "adapt_loop fw data index (Some encoding_layer # rest) =
     (case dataset_map (\<lambda>x. slice x index) data of
        Inl e \<Rightarrow> (Some e, Some encoding_layer # rest)
      | Inr data_column \<Rightarrow>
          (let (e, ls) = adapt_loop fw data (Suc index) rest
           in (e, Some (sl_adapt fw encoding_layer data_column) # ls)))"

definition adapt ::
  "('n, 'l, 'c) framework \<Rightarrow> ('l, 'c) mce \<Rightarrow> string tensor list \<Rightarrow>
     error option \<times> ('l, 'c) mce" where
  "adapt fw self data =
     (let (e, ls) = adapt_loop fw data 0 (encoding_layers self)
      in (e, self\<lparr>encoding_layers := ls\<rparr>))"

text \<open>
  \<^verbatim>\<open>dict(items)\<close>: a dictionary as the list of its items, every key once; a later item
  of a key that is already there replaces its value.
\<close>

definition dict :: "('k \<times> 'v) list \<Rightarrow> ('k \<times> 'v) list" where
  "dict items = foldl (\<lambda>d (k, v). AList.update k v d) [] items"

definition get_config :: "('l, 'c) mce \<Rightarrow> (string \<times> 'c config_value) list" where
  "get_config self =
     (let config = [(''encoding'', EncodingValue (encoding self))];
          base_config = map (\<lambda>(k, v). (k, BaseValue v)) (base_config self)
      in dict (base_config @ config))"

text \<open>
  The base layer's \<^verbatim>\<open>from_config\<close> is \<^verbatim>\<open>cls(**config)\<close>: the item of key
  \<^verbatim>\<open>encoding\<close> is the first argument of \<^verbatim>\<open>__init__\<close> (a missing argument is a
  \<^verbatim>\<open>TypeError\<close>), the other items are its keyword arguments.
\<close>

definition from_config ::
  "('n, 'l, 'c) framework \<Rightarrow> (string \<times> 'c config_value) list \<Rightarrow> error + ('l, 'c) mce" where
  "from_config fw config =
     (case map_of config ''encoding'' of
        Some (EncodingValue enc) \<Rightarrow>
          Inr (init fw enc
                 (List.map_filter (\<lambda>(k, v). case v of BaseValue c \<Rightarrow> Some (k, c) | _ \<Rightarrow> None)
                    (AList.delete ''encoding'' config)))
      | _ \<Rightarrow> Inl TypeError)"

text \<open>
  The layer objects a program can hold: one that \<^verbatim>\<open>__init__\<close> made, after any number
  of calls of its methods.
\<close>

inductive reachable :: "('n, 'l, 'c) framework \<Rightarrow> ('l, 'c) mce \<Rightarrow> bool" for fw where
  reachable_init: "reachable fw (init fw enc kwargs)"
| reachable_build: "reachable fw self \<Longrightarrow> reachable fw (build fw self)"
| reachable_call: "reachable fw self \<Longrightarrow> reachable fw (snd (call fw self inputs))"
| reachable_adapt: "reachable fw self \<Longrightarrow> reachable fw (snd (adapt fw self data))"

subsection \<open>\<^verbatim>\<open>TextVectorizationWithTokenizer\<close>\<close>

text \<open>
  The tokenizer is an object of another library; the layer calls its two methods
  \<^verbatim>\<open>tokenize\<close> and \<^verbatim>\<open>convert_tokens_to_ids\<close>.
\<close>

record tokenizer =
  tokenize :: "string \<Rightarrow> string list"
  convert_tokens_to_ids :: "string list \<Rightarrow> int list"

record text_vectorization =
  tokenizer :: tokenizer

definition encode_sentence :: "text_vectorization \<Rightarrow> string \<Rightarrow> int list" where
  "encode_sentence self s =
     (let tokens = tokenize (tokenizer self) s;
          tokens = tokens @ [''[SEP]'']
      in convert_tokens_to_ids (tokenizer self) tokens)"

text \<open>
  A ragged tensor of rank 2 is the list of its rows. \<^verbatim>\<open>tf.concat(_, axis=-1)\<close> of two
  of them with as many rows joins them row by row; \<^verbatim>\<open>to_tensor()\<close> pads every row
  with zeros to the longest one.
\<close>

definition ragged_concat :: "'a list list \<Rightarrow> 'a list list \<Rightarrow> 'a list list" where
  "ragged_concat a b = map (\<lambda>(r, r'). r @ r') (zip a b)"

definition ones_like :: "int list list \<Rightarrow> int list list" where
  "ones_like t = map (map (\<lambda>_. 1)) t"

definition ragged_zeros_like :: "int list list \<Rightarrow> int list list" where
  "ragged_zeros_like t = map (map (\<lambda>_. 0)) t"

definition to_tensor :: "int list list \<Rightarrow> int tensor" where
  "to_tensor t =
     (let width = foldr max (map length t) 0
      in \<lparr>ncols = width, rows = map (\<lambda>r. r @ replicate (width - length r) 0) t\<rparr>)"

text \<open>
  The dtype that the framework gives a nested list of Python integers when it makes a
  tensor of it: \<^verbatim>\<open>int32\<close> when every value fits, else \<^verbatim>\<open>int64\<close> when every value
  fits that, and \<^verbatim>\<open>float32\<close> when there is no value at all; a value beyond
  \<^verbatim>\<open>int64\<close> makes the conversion raise.
\<close>

datatype dtype = Int32 | Int64 | Float32

definition infer_dtype :: "int list list \<Rightarrow> error + dtype" where
  "infer_dtype t =
     (let values = concat t
      in if values = [] then Inr Float32
         else if list_all (\<lambda>v. - (2 ^ 31) \<le> v \<and> v < 2 ^ 31) values then Inr Int32
         else if list_all (\<lambda>v. - (2 ^ 63) \<le> v \<and> v < 2 ^ 63) values then Inr Int64
         else Inl ValueError)"

text \<open>
  \<^verbatim>\<open>bert_encode\<close>, on a batch of sentences (a tensor of rank 1), in the order of the
  source; the two \<^verbatim>\<open>print\<close> calls are left out.
  \<^item> \<^verbatim>\<open>tf.ragged.constant\<close> converts the ids of the sentences, with their dtype.
  \<^item> \<^verbatim>\<open>tf.concat([cls, sentence1], axis=-1)\<close> converts the list \<^verbatim>\<open>cls\<close>, with its
    own dtype, and raises when the two dtypes differ.
  \<^item> \<^verbatim>\<open>tf.ragged.constant\<close> makes a ragged tensor of a list of lists; of the empty
    list, which has nesting depth 1, it makes an ordinary tensor, and then
    \<^verbatim>\<open>input_word_ids\<close> is an ordinary tensor as well, which has no method
    \<^verbatim>\<open>to_tensor\<close>: the first use of it raises.
\<close>

definition bert_encode ::
  "text_vectorization \<Rightarrow> string list \<Rightarrow> error + (string \<times> int tensor) list" where
  "bert_encode self input =
     (let sentence1 = map (encode_sentence self) input
      in case infer_dtype sentence1 of
           Inl e \<Rightarrow> Inl e
         | Inr sentence_dtype \<Rightarrow>
             (let cls = replicate (length sentence1)
                          (convert_tokens_to_ids (tokenizer self) [''[CLS]''])
              in case infer_dtype cls of
                   Inl e \<Rightarrow> Inl e
                 | Inr cls_dtype \<Rightarrow>
                     if cls_dtype \<noteq> sentence_dtype then Inl InvalidArgumentError
                     else
                       (let input_word_ids = ragged_concat cls sentence1
                        in if sentence1 = [] then Inl AttributeError
                           else
                             (let input_mask = to_tensor (ones_like input_word_ids);
                                  type_cls = ragged_zeros_like cls;
                                  type_s1 = ragged_zeros_like sentence1;
                                  input_type_ids = to_tensor (ragged_concat type_cls type_s1)
                              in Inr [(''input_word_ids'', to_tensor input_word_ids),
                                      (''input_mask'', input_mask),
                                      (''input_type_ids'', input_type_ids)]))))"

text \<open>\<^verbatim>\<open>call\<close> of the text layer: the result, and the layer object afterwards.\<close>

definition text_call ::
  "text_vectorization \<Rightarrow> string list \<Rightarrow>
     (error + (string \<times> int tensor) list) \<times> text_vectorization" where
  "text_call self inputs = (bert_encode self inputs, self)"

text \<open>
  The ids of the row of one sentence, before padding: those of \<^verbatim>\<open>[CLS]\<close>, then those
  of the tokens of the sentence followed by \<^verbatim>\<open>[SEP]\<close>.
\<close>

definition row_ids :: "text_vectorization \<Rightarrow> string \<Rightarrow> int list" where
  "row_ids self s =
     convert_tokens_to_ids (tokenizer self) [''[CLS]''] @
     convert_tokens_to_ids (tokenizer self) (tokenize (tokenizer self) s @ [''[SEP]''])"

subsection \<open>What the methods of the two classes read and write\<close>











subsection \<open>The top level of the module\<close>

text \<open>
  What evaluating the module does with names. An import binds a name; an assignment
  evaluates its right-hand side, which reads names in order, and binds its target; a
  class definition evaluates its decorators and its bases, which read names, and binds
  the class name (the bodies of the methods are not run). A name is looked up in the
  module's namespace, then among the builtins; reading a name that is in neither
  raises \<^verbatim>\<open>NameError\<close> and ends the evaluation.
\<close>

datatype stmt =
  Import string
  | Assign string "string list"
  | ClassDef string "string list"

fun binds :: "stmt \<Rightarrow> string" where
  "binds (Import n) = n"
| "binds (Assign n _) = n"
| "binds (ClassDef n _) = n"

fun reads :: "stmt \<Rightarrow> string list" where
  "reads (Import _) = []"
| "reads (Assign _ ns) = ns"
| "reads (ClassDef _ ns) = ns"

definition exec_stmt :: "string list \<Rightarrow> string list \<Rightarrow> stmt \<Rightarrow> error + string list" where
  "exec_stmt builtins namespace st =
     (case filter (\<lambda>n. n \<notin> set namespace \<and> n \<notin> set builtins) (reads st) of
        [] \<Rightarrow> Inr (namespace @ [binds st])
      | n # _ \<Rightarrow> Inl (NameError n))"

text \<open>
  The evaluation of a list of statements: the final namespace, or the error together
  with the namespace as it was when the error was raised.
\<close>

fun exec_module ::
  "string list \<Rightarrow> string list \<Rightarrow> stmt list \<Rightarrow> (error \<times> string list) + string list" where
  "exec_module builtins namespace [] = Inr namespace"
| "exec_module builtins namespace (st # sts) =
     (case exec_stmt builtins namespace st of
        Inl e \<Rightarrow> Inl (e, namespace)
      | Inr namespace' \<Rightarrow> exec_module builtins namespace' sts)"

text \<open>An import gives the importer the module's namespace, or passes the error on.\<close>

definition import_module :: "string list \<Rightarrow> stmt list \<Rightarrow> error + string list" where
  "import_module builtins m =
     (case exec_module builtins [] m of Inl (e, _) \<Rightarrow> Inl e | Inr namespace \<Rightarrow> Inr namespace)"

text \<open>The statements of \<^verbatim>\<open>keras_layers.py\<close>, in order (the imports are taken to succeed).\<close>

definition keras_layers :: "stmt list" where
  "keras_layers =
     [Import ''np'',
      Import ''tf'',
      Import ''preprocessing'',
      Import ''nest'',
      Assign ''INT'' [],
      Assign ''NONE'' [],
      Assign ''ONE_HOT'' [],
      ClassDef ''MultiCategoryEncoding'' [''tf'', ''preprocessing''],
      Assign ''CUSTOM_OBJECTS'' [''MultiColumnCategoricalEncoding'', ''index_lookup''],
      ClassDef ''TextVectorizationWithTokenizer'' [''preprocessing'']]"

subsection \<open>What a column's layer computes\<close>

text \<open>The three encoding tags that \<^verbatim>\<open>__init__\<close> knows.\<close>

definition known_tag :: "string \<Rightarrow> bool" where
  "known_tag e = (e = NONE \<or> e = INT_tag \<or> e = ONE_HOT)"

text \<open>The value a number column gives one string whose number is \<open>v\<close>.\<close>

definition impute :: "('n, 'l, 'c) framework \<Rightarrow> 'n \<Rightarrow> 'n" where
  "impute fw v = (if is_nan fw v then zero fw else v)"

definition encode_value :: "('n, 'l, 'c) framework \<Rightarrow> 'l option \<Rightarrow> string \<Rightarrow> 'n" where
  "encode_value fw layer s =
     (case layer of
        None \<Rightarrow> impute fw (the (to_number fw s))
      | Some l \<Rightarrow> cast fw (sl_lookup fw l s))"

text \<open>
  The column at position \<open>j\<close> can be encoded by the layer at that position: without a
  lookup layer, every string of the column denotes a number; with one, its table has
  been initialized. \<open>columns_ok\<close> is the condition under which no step of the loop of
  \<^verbatim>\<open>call\<close> raises.
\<close>

definition column_ok ::
  "('n, 'l, 'c) framework \<Rightarrow> string tensor \<Rightarrow> nat \<times> 'l option \<Rightarrow> bool" where
  "column_ok fw x p =
     (case snd p of
        None \<Rightarrow> list_all (\<lambda>r. to_number fw (r ! fst p) \<noteq> None) (rows x)
      | Some l \<Rightarrow> sl_ready fw l)"

definition columns_ok ::
  "('n, 'l, 'c) framework \<Rightarrow> 'l option list \<Rightarrow> string tensor \<Rightarrow> bool" where
  "columns_ok fw layers x = list_all (column_ok fw x) (enumerate 0 layers)"

text \<open>Row by row, the values the layers give the first columns of a batch.\<close>

definition encoded_rows ::
  "('n, 'l, 'c) framework \<Rightarrow> 'l option list \<Rightarrow> string tensor \<Rightarrow> 'n list list" where
  "encoded_rows fw layers x =
     map (\<lambda>r. map (\<lambda>(j, layer). encode_value fw layer (r ! j)) (enumerate 0 layers)) (rows x)"


text \<open>One pair of the loop of \<^verbatim>\<open>call\<close> on which the loop does not raise.\<close>

definition node_ok ::
  "('n, 'l, 'c) framework \<Rightarrow> string tensor \<times> 'l option \<Rightarrow> bool" where
  "node_ok fw p =
     (case snd p of
        None \<Rightarrow> list_all (list_all (\<lambda>s. to_number fw s \<noteq> None)) (rows (fst p))
      | Some l \<Rightarrow> sl_ready fw l)"

text \<open>
  One step of the loop of \<^verbatim>\<open>adapt\<close> whose slice does not raise: the position has no
  lookup layer, or every batch of the dataset has a column there.
\<close>

definition sliceable :: "string tensor list \<Rightarrow> nat \<times> 'l option \<Rightarrow> bool" where
  "sliceable data p = (snd p = None \<or> list_all (\<lambda>x. fst p < ncols x) data)"

subsection \<open>A small framework to compute examples with\<close>

text \<open>
  Numbers are integers or NaN. A lookup layer is \<open>None\<close> before it is adapted and its
  vocabulary afterwards, in the order of first appearance; it gives a string its
  position after the two reserved indices (0 for the mask, 1 for a string out of the
  vocabulary). The base layer's configuration has a name, \<^verbatim>\<open>trainable\<close> and
  \<^verbatim>\<open>dtype\<close>, with the keyword arguments in the place of the defaults.
\<close>

datatype number = NaN | Num int

definition digit_strings :: "(string \<times> number) list" where
  "digit_strings =
     [(''nan'', NaN), (''0'', Num 0), (''1'', Num 1), (''2'', Num 2), (''3'', Num 3),
      (''4'', Num 4), (''5'', Num 5), (''6'', Num 6), (''7'', Num 7), (''8'', Num 8),
      (''9'', Num 9)]"

fun position :: "'a list \<Rightarrow> 'a \<Rightarrow> int option" where
  "position [] s = None"
| "position (v # vs) s = (if v = s then Some 0 else map_option (\<lambda>k. k + 1) (position vs s))"

definition toy :: "(number, string list option, string) framework" where
  "toy =
     \<lparr>to_number = map_of digit_strings,
      is_nan = (\<lambda>v. v = NaN),
      zero = Num 0,
      cast = Num,
      StringLookup = None,
      sl_build = (\<lambda>l. l),
      sl_adapt = (\<lambda>l data. Some (remdups (concat (concat (map rows data))))),
      sl_ready = (\<lambda>l. l \<noteq> None),
      sl_lookup = (\<lambda>l s. case l of None \<Rightarrow> 1
                        | Some v \<Rightarrow> (case position v s of None \<Rightarrow> 1 | Some k \<Rightarrow> k + 2)),
      layer_config = (\<lambda>kwargs. dict ([(''name'', ''multi_category_encoding''),
                                     (''trainable'', ''True''), (''dtype'', ''float32'')]
                                    @ kwargs))\<rparr>"

text \<open>
  A tokenizer that makes one token of every character and has a vocabulary of a few
  tokens (100 is the index of an unknown token); and some of Python's builtin names.
\<close>

definition toy_vocab :: "(string \<times> int) list" where
  "toy_vocab = [(''[CLS]'', 101), (''[SEP]'', 102), (''a'', 5), (''b'', 6), (''c'', 7)]"

definition toy_tokenizer :: tokenizer where
  "toy_tokenizer =
     \<lparr>tokenize = (\<lambda>s. map (\<lambda>c. [c]) s),
      convert_tokens_to_ids = map (\<lambda>t. case map_of toy_vocab t of None \<Rightarrow> 100 | Some k \<Rightarrow> k)\<rparr>"

definition some_builtins :: "string list" where
  "some_builtins = [''print'', ''len'', ''list'', ''dict'', ''zip'', ''enumerate'', ''super'']"


section \<open>Properties of the embedding\<close>

subsection \<open>The loops\<close>


lemma init_layers_append:
  "foldl (init_step fw) acc enc = acc @ concat (map (init_step fw []) enc)"
proof (induction enc arbitrary: acc)
  case Nil
  show ?case by simp
next
  case (Cons e es)
  have "init_step fw acc e = acc @ init_step fw [] e" by (simp add: init_step_def)
  then show ?case using Cons.IH [of "acc @ init_step fw [] e"] by simp
qed

lemma init_step_known:
  "known_tag e \<Longrightarrow> init_step fw [] e = [if e = INT_tag then Some (StringLookup fw) else None]"
  by (auto simp: known_tag_def init_step_def NONE_def INT_tag_def ONE_HOT_def)

lemma init_layers_known:
  "list_all known_tag es \<Longrightarrow>
   concat (map (init_step fw []) es) = map (\<lambda>e. if e = INT_tag then Some (StringLookup fw) else None) es"
  by (induction es) (simp_all add: init_step_known)

lemma init_layers_prefix:
  assumes "i < length enc" and "list_all known_tag (take (Suc i) enc)"
  shows "i < length (foldl (init_step fw) [] enc)"
    and "foldl (init_step fw) [] enc ! i = (if enc ! i = INT_tag then Some (StringLookup fw) else None)"
proof -
  let ?f = "\<lambda>e. if e = INT_tag then Some (StringLookup fw) else None"
  have "concat (map (init_step fw []) (take (Suc i) enc @ drop (Suc i) enc))
        = map ?f (take (Suc i) enc) @ concat (map (init_step fw []) (drop (Suc i) enc))"
    unfolding map_append concat_append using assms(2) by (simp only: init_layers_known)
  then have eq: "foldl (init_step fw) [] enc
        = map ?f (take (Suc i) enc) @ concat (map (init_step fw []) (drop (Suc i) enc))"
    by (simp only: init_layers_append append_take_drop_id append_Nil)
  have len: "i < length (map ?f (take (Suc i) enc))" using assms(1) by simp
  show "i < length (foldl (init_step fw) [] enc)" using len by (simp add: eq)
  show "foldl (init_step fw) [] enc ! i = ?f (enc ! i)"
    using len assms(1) by (simp add: eq nth_append)
qed

lemma init_layers_length_le:
  "length (concat (map (init_step fw []) es)) \<le> length es"
  by (induction es) (auto simp: init_step_def)

lemma init_layers_length_less:
  "\<not> list_all known_tag es \<Longrightarrow> length (concat (map (init_step fw []) es)) < length es"
proof (induction es)
  case Nil then show ?case by simp
next
  case (Cons e es)
  show ?case
  proof (cases "known_tag e")
    case True
    then show ?thesis using Cons by (simp add: init_step_known)
  next
    case False
    then have "init_step fw [] e = []" by (auto simp: known_tag_def init_step_def)
    then show ?thesis using init_layers_length_le [of fw es] by simp
  qed
qed

lemma zip_same_maps: "zip (map f xs) (map g xs) = map (\<lambda>x. (f x, g x)) xs"
  by (induction xs) simp_all

lemma tf_where_tmap:
  "tf_where (tmap p t) (tmap f t) t = tmap (\<lambda>v. if p v then f v else v) t"
proof -
  have row: "map (\<lambda>(cv, xv, yv). if cv then xv else yv) (zip (map p r) (zip (map f r) r))
        = map (\<lambda>v. if p v then f v else v) r" for r
    by (induction r) simp_all
  have "map (\<lambda>(cr, xr, yr). map (\<lambda>(cv, xv, yv). if cv then xv else yv) (zip cr (zip xr yr)))
               (zip (map (map p) rs) (zip (map (map f) rs) rs))
        = map (map (\<lambda>v. if p v then f v else v)) rs" for rs
    by (induction rs) (simp_all add: row)
  then show ?thesis by (simp add: tf_where_def tmap_def)
qed



lemma number_column:
  "tf_where (tmap (is_nan fw) (tmap g t)) (zeros_like fw (tmap g t)) (tmap g t)
   = tmap (\<lambda>s. impute fw (g s)) t"
proof -
  have "zeros_like fw (tmap g t) = tmap (\<lambda>_. zero fw) (tmap g t)"
    by (simp add: zeros_like_def)
  then have "tf_where (tmap (is_nan fw) (tmap g t)) (zeros_like fw (tmap g t)) (tmap g t)
        = tmap (\<lambda>v. if is_nan fw v then zero fw else v) (tmap g t)"
    by (simp only: tf_where_tmap)
  also have "\<dots> = tmap (\<lambda>s. impute fw (g s)) t"
    by (simp add: tmap_def impute_def)
  finally show ?thesis .
qed

lemma lookup_column:
  "sl_ready fw l \<Longrightarrow>
   sl_call fw l t = Inr (tmap (sl_lookup fw l) t) \<and>
   tmap (cast fw) (tmap (sl_lookup fw l) t) = tmap (encode_value fw (Some l)) t"
  by (simp add: sl_call_def tmap_def encode_value_def)

lemma call_loop_ok:
  "list_all (node_ok fw) ps \<Longrightarrow>
   call_loop fw ps = Inr (map (\<lambda>(node, layer). tmap (encode_value fw layer) node) ps)"
proof (induction ps)
  case Nil
  show ?case by simp
next
  case (Cons p ps)
  obtain input_node layer where p: "p = (input_node, layer)" by (cases p)
  from Cons.prems have rest: "list_all (node_ok fw) ps" and here: "node_ok fw (input_node, layer)"
    by (simp_all add: p)
  note IH = Cons.IH [OF rest]
  show ?case
  proof (cases layer)
    case None
    have "list_all (list_all (\<lambda>s. to_number fw s \<noteq> None)) (rows input_node)"
      using here by (simp add: node_ok_def None)
    then have conv: "strings_to_number fw input_node
                     = Inr (tmap (\<lambda>s. the (to_number fw s)) input_node)"
      by (simp add: strings_to_number_def)
    have enc: "tmap (encode_value fw None) input_node
               = tmap (\<lambda>s. impute fw (the (to_number fw s))) input_node"
      by (simp add: encode_value_def tmap_def)
    show ?thesis by (simp add: p None conv IH number_column enc)
  next
    case (Some encoding_layer)
    have "sl_ready fw encoding_layer" using here by (simp add: node_ok_def Some)
    from lookup_column [OF this, of input_node]
    show ?thesis by (simp add: p Some IH)
  qed
qed

lemma call_loop_raises:
  "\<not> list_all (node_ok fw) ps \<Longrightarrow> \<exists>e. call_loop fw ps = Inl e"
proof (induction ps)
  case Nil
  then show ?case by simp
next
  case (Cons p ps)
  obtain input_node layer where p: "p = (input_node, layer)" by (cases p)
  show ?case
  proof (cases "node_ok fw (input_node, layer)")
    case False
    then show ?thesis
      by (cases layer) (simp_all add: p node_ok_def strings_to_number_def sl_call_def)
  next
    case True
    then have "\<not> list_all (node_ok fw) ps" using Cons.prems by (simp add: p)
    from Cons.IH [OF this] obtain e where "call_loop fw ps = Inl e" ..
    then show ?thesis
      by (cases layer) (simp_all add: p split: sum.splits)
  qed
qed

lemma concat_rows_cons:
  "rss \<noteq> [] \<Longrightarrow> concat_rows (rs # rss) = map (\<lambda>(r, r'). r @ r') (zip rs (concat_rows rss))"
  by (cases rss) simp_all

lemma concat_rows_columns:
  "fs \<noteq> [] \<Longrightarrow>
   concat_rows (map (\<lambda>f. map (\<lambda>r. [f r]) rws) fs) = map (\<lambda>r. map (\<lambda>f. f r) fs) rws"
proof (induction fs rule: list_nonempty_induct)
  case (single f)
  show ?case by simp
next
  case (cons f fs)
  then show ?case by (simp add: concat_rows_cons zip_same_maps)
qed


lemma zip_columns:
  "zip (map f [0..<n]) layers = map (\<lambda>(j, l). (f j, l)) (enumerate 0 (take n layers))"
proof -
  have "zip [0..<n] layers = enumerate 0 (take n layers)"
    by (rule nth_equalityI) (auto simp: nth_enumerate_eq)
  then show ?thesis by (simp add: zip_map1)
qed

lemma columns_ok_nodes:
  "list_all (node_ok fw) (map (\<lambda>(j, l). (column x j, l)) js) = list_all (column_ok fw x) js"
  by (induction js)
     (auto simp: node_ok_def column_ok_def column_def list_all_iff split: option.splits)

lemma encoded_columns:
  "map (\<lambda>(node, layer). tmap (encode_value fw layer) node) (map (\<lambda>(j, l). (column x j, l)) js)
   = map (\<lambda>f. \<lparr>ncols = 1, rows = map (\<lambda>r. [f r]) (rows x)\<rparr>)
       (map (\<lambda>(j, l) r. encode_value fw l (r ! j)) js)"
  by (induction js) (auto simp: tmap_def column_def)

lemma Concatenate_columns:
  assumes "2 \<le> length fs"
  shows "Concatenate (map (\<lambda>f. \<lparr>ncols = 1, rows = map (\<lambda>r. [f r]) rws\<rparr>) fs)
         = Inr \<lparr>ncols = length fs, rows = map (\<lambda>r. map (\<lambda>f. f r) fs) rws\<rparr>"
proof -
  let ?nodes = "map (\<lambda>f. \<lparr>ncols = 1, rows = map (\<lambda>r. [f r]) rws\<rparr>) fs"
  have ne: "fs \<noteq> []" using assms by auto
  have same: "list_all (\<lambda>t. length (rows t) = length (rows (hd ?nodes))) ?nodes"
    using ne by (simp add: list_all_iff hd_map)
  have width: "sum_list (map ncols ?nodes) = length fs"
    by (induction fs) simp_all
  have rws: "concat_rows (map rows ?nodes) = map (\<lambda>r. map (\<lambda>f. f r) fs) rws"
    using concat_rows_columns [OF ne, of rws] by (simp add: comp_def)
  show ?thesis
    unfolding Concatenate_def using assms same width rws by simp
qed

lemma call_fst_cases:
  assumes "flatten inputs = x # others" and "ncols x = length (encoding self)"
    and "encoding self \<noteq> []"
    and "ls = take (length (encoding self)) (encoding_layers self)"
  shows "columns_ok fw ls x \<Longrightarrow>
         fst (call fw self inputs) =
           (if ls = [] then Inl ValueError
            else Inr \<lparr>ncols = length ls, rows = encoded_rows fw ls x\<rparr>)"
    and "\<not> columns_ok fw ls x \<Longrightarrow> \<exists>e. fst (call fw self inputs) = Inl e"
proof -
  let ?js = "enumerate 0 ls"
  let ?ps = "map (\<lambda>(j, l). (column x j, l)) ?js"
  let ?fs = "map (\<lambda>(j, l) r. encode_value fw l (r ! j)) ?js"
  let ?nodes = "map (\<lambda>f. \<lparr>ncols = 1, rows = map (\<lambda>r. [f r]) (rows x)\<rparr>) ?fs"
  have sp: "split x (length (encoding self)) = Inr (map (column x) [0..<length (encoding self)])"
    using assms(2,3) by (simp add: split_def)
  have zp: "zip (map (column x) [0..<length (encoding self)]) (encoding_layers self) = ?ps"
    unfolding assms(4) by (rule zip_columns)
  have c: "fst (call fw self inputs) =
             (case call_loop fw ?ps of
                Inl e \<Rightarrow> Inl e
              | Inr output_nodes \<Rightarrow>
                  if length output_nodes = 1 then Inr (output_nodes ! 0)
                  else Concatenate output_nodes)"
    using assms(1) by (simp add: call_def sp zp split: sum.splits)
  have ok: "list_all (node_ok fw) ?ps = columns_ok fw ls x"
    by (simp only: columns_ok_nodes columns_ok_def)
  have rws: "map (\<lambda>r. map (\<lambda>f. f r) ?fs) (rows x) = encoded_rows fw ls x"
    by (simp add: encoded_rows_def comp_def case_prod_unfold)
  show "\<exists>e. fst (call fw self inputs) = Inl e" if "\<not> columns_ok fw ls x"
  proof -
    have "\<not> list_all (node_ok fw) ?ps" unfolding ok by (rule that)
    from call_loop_raises [OF this] obtain e where "call_loop fw ?ps = Inl e" ..
    then show ?thesis by (simp add: c)
  qed
  show "fst (call fw self inputs) =
           (if ls = [] then Inl ValueError
            else Inr \<lparr>ncols = length ls, rows = encoded_rows fw ls x\<rparr>)"
    if p: "columns_ok fw ls x"
  proof -
    have "list_all (node_ok fw) ?ps" unfolding ok by (rule p)
    then have loop: "call_loop fw ?ps = Inr ?nodes"
      by (simp only: call_loop_ok encoded_columns)
    have len: "length ?nodes = length ls" by simp
    have c': "fst (call fw self inputs) =
                (if length ls = 1 then Inr (?nodes ! 0) else Concatenate ?nodes)"
      by (simp only: c loop len sum.case)
    consider "ls = []" | "length ls = 1" | "2 \<le> length ls"
      by (cases ls) (auto simp: Suc_le_eq)
    then show ?thesis
    proof cases
      case 1
      then show ?thesis by (simp add: c' Concatenate_def)
    next
      case 2
      then obtain l where l: "ls = [l]" by (cases ls) auto
      show ?thesis by (simp add: c' l encoded_rows_def)
    next
      case 3
      then have "2 \<le> length ?fs" by simp
      from Concatenate_columns [OF this, of "rows x"]
      have "Concatenate ?nodes = Inr \<lparr>ncols = length ls, rows = encoded_rows fw ls x\<rparr>"
        by (simp only: rws) simp
      moreover have "ls \<noteq> []" and "length ls \<noteq> 1" using 3 by auto
      ultimately show ?thesis by (simp only: c') simp
    qed
  qed
qed

lemma call_fst_shape:
  assumes "flatten inputs = x # others" and "ncols x \<noteq> length (encoding self)"
  shows "fst (call fw self inputs) = Inl InvalidArgumentError"
  using assms by (simp add: call_def split_def)

lemma call_fst_empty:
  assumes "flatten inputs = x # others" and "encoding self = []"
  shows "fst (call fw self inputs) = Inl InvalidArgumentError"
  using assms by (simp add: call_def split_def)

lemma call_snd: "snd (call fw self inputs) = self"
  by (simp add: call_def split: list.splits sum.splits)

lemma dataset_map_slice:
  "dataset_map (\<lambda>x. slice x index) data =
     (if list_all (\<lambda>x. index < ncols x) data then Inr (map (\<lambda>x. column x index) data)
      else Inl InvalidArgumentError)"
  by (induction data) (simp_all add: slice_def)


lemma adapt_loop_fst_cases:
  "fst (adapt_loop fw data index (layer # rest)) =
     (case layer of
        None \<Rightarrow> fst (adapt_loop fw data (Suc index) rest)
      | Some l \<Rightarrow> if list_all (\<lambda>x. index < ncols x) data
                  then fst (adapt_loop fw data (Suc index) rest)
                  else Some InvalidArgumentError)"
  by (simp add: dataset_map_slice split: option.splits prod.splits)

lemma adapt_loop_snd_cases:
  "snd (adapt_loop fw data index (layer # rest)) =
     (case layer of
        None \<Rightarrow> None # snd (adapt_loop fw data (Suc index) rest)
      | Some l \<Rightarrow> if list_all (\<lambda>x. index < ncols x) data
                  then Some (sl_adapt fw l (map (\<lambda>x. column x index) data))
                         # snd (adapt_loop fw data (Suc index) rest)
                  else Some l # rest)"
  by (simp add: dataset_map_slice split: option.splits prod.splits)

lemma adapt_loop_fst:
  "fst (adapt_loop fw data index layers) =
     (if list_all (sliceable data) (enumerate index layers) then None
      else Some InvalidArgumentError)"
proof (induction layers arbitrary: index)
  case Nil
  show ?case by simp
next
  case (Cons layer rest)
  show ?case
    by (simp only: adapt_loop_fst_cases Cons.IH) (simp add: sliceable_def split: option.splits)
qed

lemma adapt_loop_snd:
  "list_all (sliceable data) (enumerate index layers) \<Longrightarrow>
   snd (adapt_loop fw data index layers) =
     map (\<lambda>(j, layer). map_option (\<lambda>l. sl_adapt fw l (map (\<lambda>x. column x j) data)) layer)
       (enumerate index layers)"
proof (induction layers arbitrary: index)
  case Nil
  show ?case by simp
next
  case (Cons layer rest)
  then have rest: "list_all (sliceable data) (enumerate (Suc index) rest)" by simp
  show ?case using Cons.prems
    by (simp only: adapt_loop_snd_cases Cons.IH [OF rest])
       (auto simp: sliceable_def split: option.splits)
qed

lemma adapt_loop_snd_none:
  "map (\<lambda>l. l = None) (snd (adapt_loop fw data index layers)) = map (\<lambda>l. l = None) layers"
proof (induction layers arbitrary: index)
  case Nil
  show ?case by simp
next
  case (Cons layer rest)
  show ?case
    by (simp only: adapt_loop_snd_cases) (simp add: Cons.IH split: option.splits)
qed

lemma adapt_snd:
  "snd (adapt fw self data) = self\<lparr>encoding_layers := snd (adapt_loop fw data 0 (encoding_layers self))\<rparr>"
  by (simp add: adapt_def split: prod.splits)

lemma adapt_fst:
  "fst (adapt fw self data) = fst (adapt_loop fw data 0 (encoding_layers self))"
  by (simp add: adapt_def split: prod.splits)

lemma reachable_encoding_layers:
  "reachable fw self \<Longrightarrow>
   map (\<lambda>l. l = None) (encoding_layers self)
   = map (\<lambda>l. l = None) (foldl (init_step fw) [] (encoding self))"
proof (induction rule: reachable.induct)
  case (reachable_init enc kwargs)
  show ?case by (simp add: init_def)
next
  case (reachable_build self)
  then show ?case by (simp add: build_def comp_def)
next
  case (reachable_call self inputs)
  then show ?case by (simp only: call_snd)
next
  case (reachable_adapt self data)
  show ?case using reachable_adapt.IH by (simp add: adapt_snd adapt_loop_snd_none)
qed

lemma reachable_length:
  assumes "reachable fw self"
  shows "length (encoding_layers self) = length (foldl (init_step fw) [] (encoding self))"
  using reachable_encoding_layers [OF assms, THEN arg_cong, of length] by simp

lemma reachable_length_le:
  assumes "reachable fw self"
  shows "length (encoding_layers self) \<le> length (encoding self)"
  using reachable_length [OF assms] init_layers_length_le [of fw "encoding self"]
  by (simp add: init_layers_append)

lemma reachable_prefix:
  assumes "reachable fw self" and "i < length (encoding self)"
    and "list_all known_tag (take (Suc i) (encoding self))"
  shows "i < length (encoding_layers self)"
    and "(encoding_layers self ! i = None) = (encoding self ! i \<noteq> INT_tag)"
proof -
  note p = init_layers_prefix [OF assms(2,3), of fw]
  show len: "i < length (encoding_layers self)"
    using p(1) reachable_length [OF assms(1)] by simp
  have "map (\<lambda>l. l = None) (encoding_layers self) ! i
        = map (\<lambda>l. l = None) (foldl (init_step fw) [] (encoding self)) ! i"
    by (simp only: reachable_encoding_layers [OF assms(1)])
  then show "(encoding_layers self ! i = None) = (encoding self ! i \<noteq> INT_tag)"
    using len p by simp
qed

subsection \<open>The result of \<^verbatim>\<open>call\<close>, column by column\<close>

lemma column_value:
  assumes "flatten inputs = x # others"
    and "fst (call fw self inputs) = Inr out"
    and "ls = take (length (encoding self)) (encoding_layers self)"
  shows "ncols x = length (encoding self)"
    and "columns_ok fw ls x" and "ls \<noteq> []"
    and "out = \<lparr>ncols = length ls, rows = encoded_rows fw ls x\<rparr>"
proof -
  show n: "ncols x = length (encoding self)"
    using call_fst_shape [OF assms(1), of self fw] assms(2)
    by (cases "ncols x = length (encoding self)") auto
  have ne: "encoding self \<noteq> []"
    using call_fst_empty [OF assms(1), of self fw] assms(2) by (cases "encoding self") auto
  note c = call_fst_cases [OF assms(1) n ne assms(3), of fw]
  show ok: "columns_ok fw ls x"
    using c(2) assms(2) by (cases "columns_ok fw ls x") auto
  show "ls \<noteq> []" using c(1) [OF ok] assms(2) by (simp split: if_splits)
  show "out = \<lparr>ncols = length ls, rows = encoded_rows fw ls x\<rparr>"
    using c(1) [OF ok] assms(2) by (simp split: if_splits)
qed

lemma encoded_rows_nth:
  assumes "r < length (rows x)" and "i < length ls"
  shows "encoded_rows fw ls x ! r ! i = encode_value fw (ls ! i) (rows x ! r ! i)"
  using assms by (simp add: encoded_rows_def nth_enumerate_eq)

lemma columns_ok_nth:
  assumes "columns_ok fw ls x" and "i < length ls"
  shows "ls ! i = None \<Longrightarrow> r < length (rows x) \<Longrightarrow> to_number fw (rows x ! r ! i) \<noteq> None"
    and "ls ! i = Some l \<Longrightarrow> sl_ready fw l"
proof -
  have "(i, ls ! i) \<in> set (enumerate 0 ls)"
    using assms(2) by (simp add: in_set_enumerate_eq)
  then have ok: "column_ok fw x (i, ls ! i)"
    using assms(1) by (auto simp: columns_ok_def list_all_iff)
  show "to_number fw (rows x ! r ! i) \<noteq> None" if "ls ! i = None" and "r < length (rows x)"
    using ok that by (simp add: column_ok_def list_all_iff)
  show "sl_ready fw l" if "ls ! i = Some l"
    using ok that by (simp add: column_ok_def)
qed

lemma reachable_take:
  assumes "reachable fw self"
  shows "take (length (encoding self)) (encoding_layers self) = encoding_layers self"
  using reachable_length_le [OF assms] by simp


lemma call_values:
  assumes "reachable fw self" and "flatten inputs = x # others"
    and "fst (call fw self inputs) = Inr out" and "i < length (encoding_layers self)"
  shows "columns_ok fw (encoding_layers self) x"
    and "ncols out = length (encoding_layers self)"
    and "length (rows out) = length (rows x)"
    and "r < length (rows x) \<Longrightarrow>
         rows out ! r ! i = encode_value fw (encoding_layers self ! i) (rows x ! r ! i)"
proof -
  note v = column_value [OF assms(2,3) reachable_take [OF assms(1), symmetric]]
  show "columns_ok fw (encoding_layers self) x" by (rule v(2))
  show "ncols out = length (encoding_layers self)" using v(4) by simp
  show "length (rows out) = length (rows x)" using v(4) by (simp add: encoded_rows_def)
  show "rows out ! r ! i = encode_value fw (encoding_layers self ! i) (rows x ! r ! i)"
    if "r < length (rows x)"
    using v(4) encoded_rows_nth [OF that assms(4), of fw] by simp
qed

lemma number_column_values:
  assumes "reachable fw self" and "flatten inputs = x # others"
    and "fst (call fw self inputs) = Inr out" and "i < length (encoding_layers self)"
    and "encoding_layers self ! i = None" and "r < length (rows x)"
  shows "\<exists>v. to_number fw (rows x ! r ! i) = Some v \<and>
             rows out ! r ! i = (if is_nan fw v then zero fw else v)"
proof -
  note c = call_values [OF assms(1-4)]
  from columns_ok_nth(1) [OF c(1) assms(4,5,6)]
  obtain v where v: "to_number fw (rows x ! r ! i) = Some v" by auto
  have "rows out ! r ! i = encode_value fw None (rows x ! r ! i)"
    using c(4) [OF assms(6)] assms(5) by simp
  then have "rows out ! r ! i = (if is_nan fw v then zero fw else v)"
    by (simp add: encode_value_def impute_def v)
  then show ?thesis using v by blast
qed

lemma init_layers_update:
  assumes "i < length enc" and "enc ! i = ONE_HOT"
  shows "foldl (init_step fw) [] (enc[i := NONE]) = foldl (init_step fw) [] enc"
proof -
  have same: "init_step fw [] NONE = init_step fw [] ONE_HOT"
    by (simp add: init_step_def NONE_def ONE_HOT_def INT_tag_def)
  have "map (init_step fw []) (enc[i := NONE]) = map (init_step fw []) enc"
    using assms by (simp add: map_update same list_update_same_conv)
  then show ?thesis by (simp only: init_layers_append)
qed





lemma known_layers:
  assumes "reachable fw self" and "list_all known_tag (encoding self)"
  shows "length (encoding_layers self) = length (encoding self)"
    and "j < length (encoding self) \<Longrightarrow>
         (encoding_layers self ! j = None) = (encoding self ! j \<noteq> INT_tag)"
proof -
  show "length (encoding_layers self) = length (encoding self)"
    using reachable_length [OF assms(1)] init_layers_known [OF assms(2), of fw]
    by (simp add: init_layers_append)
  show "(encoding_layers self ! j = None) = (encoding self ! j \<noteq> INT_tag)"
    if "j < length (encoding self)"
  proof -
    have "list_all known_tag (take (Suc j) (encoding self))"
      using assms(2) by (auto simp: list_all_iff dest: in_set_takeD)
    from reachable_prefix(2) [OF assms(1) that this] show ?thesis .
  qed
qed

lemma unknown_tag_step: "\<not> known_tag e \<Longrightarrow> init_step fw layers e = layers"
  by (auto simp: known_tag_def init_step_def)

subsection \<open>The result of \<^verbatim>\<open>adapt\<close>\<close>

lemma adapt_layer:
  assumes "fst (adapt fw self data) = None" and "j < length (encoding_layers self)"
  shows "encoding_layers (snd (adapt fw self data)) ! j
         = map_option (\<lambda>l. sl_adapt fw l (map (\<lambda>x. column x j) data)) (encoding_layers self ! j)"
    and "encoding_layers self ! j \<noteq> None \<Longrightarrow> list_all (\<lambda>x. j < ncols x) data"
proof -
  have ok: "list_all (sliceable data) (enumerate 0 (encoding_layers self))"
    using assms(1) by (simp add: adapt_fst adapt_loop_fst split: if_splits)
  show "encoding_layers (snd (adapt fw self data)) ! j
        = map_option (\<lambda>l. sl_adapt fw l (map (\<lambda>x. column x j) data)) (encoding_layers self ! j)"
    using assms(2) by (simp add: adapt_snd adapt_loop_snd [OF ok] nth_enumerate_eq)
  have "(j, encoding_layers self ! j) \<in> set (enumerate 0 (encoding_layers self))"
    using assms(2) by (simp add: in_set_enumerate_eq)
  then have "sliceable data (j, encoding_layers self ! j)"
    using ok by (auto simp: list_all_iff)
  then show "list_all (\<lambda>x. j < ncols x) data" if "encoding_layers self ! j \<noteq> None"
    using that by (simp add: sliceable_def)
qed

lemma adapt_none:
  assumes "j < length (encoding_layers self)" and "encoding_layers self ! j = None"
  shows "encoding_layers (snd (adapt fw self data)) ! j = None"
proof -
  let ?new = "snd (adapt_loop fw data 0 (encoding_layers self))"
  have eq: "map (\<lambda>l. l = None) ?new = map (\<lambda>l. l = None) (encoding_layers self)"
    by (rule adapt_loop_snd_none)
  then have "length ?new = length (encoding_layers self)"
    by (rule map_eq_imp_length_eq)
  then have "(?new ! j = None) = (encoding_layers self ! j = None)"
    using arg_cong [OF eq, of "\<lambda>bs. bs ! j"] assms(1) by simp
  then show ?thesis using assms(2) by (simp add: adapt_snd)
qed

subsection \<open>Configurations\<close>

lemma dict_snoc: "dict (xs @ [(k, v)]) = AList.update k v (dict xs)"
  by (simp add: dict_def)

lemma get_config_encoding:
  "map_of (get_config self) ''encoding'' = Some (EncodingValue (encoding self))"
  by (simp add: get_config_def dict_snoc update_conv')

subsection \<open>The evaluation of the module\<close>

lemma exec_stmt_Import: "exec_stmt builtins ns (Import n) = Inr (ns @ [n])"
  by (simp add: exec_stmt_def)

lemma exec_stmt_Assign_Nil: "exec_stmt builtins ns (Assign n []) = Inr (ns @ [n])"
  by (simp add: exec_stmt_def)

lemma exec_stmt_bound:
  "set (reads st) \<subseteq> set ns \<Longrightarrow> exec_stmt builtins ns st = Inr (ns @ [binds st])"
proof -
  assume "set (reads st) \<subseteq> set ns"
  then have "filter (\<lambda>n. n \<notin> set ns \<and> n \<notin> set builtins) (reads st) = []"
    by (auto simp: filter_empty_conv)
  then show ?thesis by (simp add: exec_stmt_def)
qed

lemma exec_stmt_unbound:
  "reads st = n # ns' \<Longrightarrow> n \<notin> set ns \<Longrightarrow> n \<notin> set builtins \<Longrightarrow>
   exec_stmt builtins ns st = Inl (NameError n)"
  by (simp add: exec_stmt_def)


lemma exec_first_eight:
  "exec_module builtins [] (take 8 keras_layers)
     = Inr [''np'', ''tf'', ''preprocessing'', ''nest'', ''INT'', ''NONE'', ''ONE_HOT'',
            ''MultiCategoryEncoding'']"
proof -
  have c: "exec_stmt builtins
             [''np'', ''tf'', ''preprocessing'', ''nest'', ''INT'', ''NONE'', ''ONE_HOT'']
             (ClassDef ''MultiCategoryEncoding'' [''tf'', ''preprocessing''])
           = Inr [''np'', ''tf'', ''preprocessing'', ''nest'', ''INT'', ''NONE'', ''ONE_HOT'',
                  ''MultiCategoryEncoding'']"
    by (subst exec_stmt_bound) simp_all
  show ?thesis
    by (simp add: keras_layers_def exec_stmt_Import exec_stmt_Assign_Nil c)
qed


lemma exec_module_append:
  "exec_module builtins ns (sts @ sts') =
     (case exec_module builtins ns sts of
        Inl e \<Rightarrow> Inl e
      | Inr ns' \<Rightarrow> exec_module builtins ns' sts')"
  by (induction sts arbitrary: ns) (simp_all split: sum.splits)

subsection \<open>The result of \<^verbatim>\<open>bert_encode\<close>\<close>

lemma ragged_concat_replicate:
  "ragged_concat (replicate (length t) c) t = map (\<lambda>r. c @ r) t"
  by (induction t) (simp_all add: ragged_concat_def)

lemma width_ge: "r \<in> set t \<Longrightarrow> length r \<le> foldr max (map length t) 0"
  by (induction t) auto

lemma width_map:
  "(\<And>x. length (f x) = length (g x)) \<Longrightarrow>
   foldr max (map length (map f xs)) 0 = foldr max (map length (map g xs)) 0"
  by (induction xs) simp_all

lemma to_tensor_ncols: "ncols (to_tensor t) = foldr max (map length t) 0"
  by (simp add: to_tensor_def Let_def)

lemma to_tensor_rows:
  "rows (to_tensor t) = map (\<lambda>r. r @ replicate (foldr max (map length t) 0 - length r) 0) t"
  by (simp add: to_tensor_def Let_def)

lemma bert_encode_items:
  assumes "input \<noteq> []"
    and "infer_dtype (map (encode_sentence self) input) = Inr t"
    and "infer_dtype (replicate (length input)
                        (convert_tokens_to_ids (tokenizer self) [''[CLS]''])) = Inr t"
  shows "bert_encode self input =
     Inr [(''input_word_ids'', to_tensor (map (row_ids self) input)),
          (''input_mask'', to_tensor (map (\<lambda>s. replicate (length (row_ids self s)) 1) input)),
          (''input_type_ids'', to_tensor (map (\<lambda>s. replicate (length (row_ids self s)) 0) input))]"
proof -
  let ?s1 = "map (encode_sentence self) input"
  let ?c = "convert_tokens_to_ids (tokenizer self) [''[CLS]'']"
  have ids: "row_ids self s = ?c @ encode_sentence self s" for s
    by (simp add: row_ids_def encode_sentence_def)
  have w: "ragged_concat (replicate (length ?s1) ?c) ?s1 = map (row_ids self) input"
    by (simp only: ragged_concat_replicate) (simp add: ids)
  have m: "ones_like (map (row_ids self) input)
           = map (\<lambda>s. replicate (length (row_ids self s)) 1) input"
    by (simp add: ones_like_def map_replicate_const)
  have z: "ragged_zeros_like (replicate (length ?s1) ?c)
           = replicate (length (ragged_zeros_like ?s1)) (map (\<lambda>_. 0) ?c)"
    by (simp add: ragged_zeros_like_def)
  have t: "ragged_concat (ragged_zeros_like (replicate (length ?s1) ?c)) (ragged_zeros_like ?s1)
           = map (\<lambda>s. replicate (length (row_ids self s)) 0) input"
    by (simp only: z ragged_concat_replicate)
       (simp add: ragged_zeros_like_def ids map_replicate_const replicate_add)
  have ne: "?s1 \<noteq> []" using assms(1) by simp
  have d: "infer_dtype (replicate (length ?s1) ?c) = Inr t" using assms(3) by simp
  show ?thesis
    unfolding bert_encode_def Let_def using ne
    by (simp only: assms(2) d w m t sum.case if_False simp_thms)
qed

lemma bert_encode_returns:
  "(\<exists>result. bert_encode self input = Inr result) =
   (input \<noteq> [] \<and>
    (\<exists>t. infer_dtype (map (encode_sentence self) input) = Inr t \<and>
         infer_dtype (replicate (length input)
                        (convert_tokens_to_ids (tokenizer self) [''[CLS]''])) = Inr t))"
  by (auto simp: bert_encode_def Let_def split: sum.splits if_splits)

lemma infer_dtype_Int32:
  assumes "concat t \<noteq> []" and "list_all (\<lambda>v. - (2 ^ 31) \<le> v \<and> v < 2 ^ 31) (concat t)"
  shows "infer_dtype t = Inr Int32"
  by (simp only: infer_dtype_def Let_def assms if_False if_True)

subsection \<open>More on \<^verbatim>\<open>call\<close>, \<^verbatim>\<open>adapt\<close> and \<^verbatim>\<open>bert_encode\<close>\<close>

lemma call_encoding_length:
  "length enc = length (encoding self) \<Longrightarrow>
   fst (call fw (self\<lparr>encoding := enc\<rparr>) inputs) = fst (call fw self inputs)"
  by (simp add: call_def split: list.splits sum.splits)

lemma adapt_encoding:
  "fst (adapt fw (self\<lparr>encoding := enc\<rparr>) data) = fst (adapt fw self data) \<and>
   encoding_layers (snd (adapt fw (self\<lparr>encoding := enc\<rparr>) data))
     = encoding_layers (snd (adapt fw self data))"
  by (simp add: adapt_def split: prod.splits)

lemma text_call_rows:
  assumes "inputs \<noteq> []"
    and "infer_dtype (map (encode_sentence self) inputs) = Inr t"
    and "infer_dtype (replicate (length inputs)
                        (convert_tokens_to_ids (tokenizer self) [''[CLS]''])) = Inr t"
  shows "\<exists>word_ids mask type_ids.
           fst (text_call self inputs)
             = Inr [(''input_word_ids'', word_ids), (''input_mask'', mask),
                    (''input_type_ids'', type_ids)] \<and>
           ncols mask = ncols word_ids \<and> ncols type_ids = ncols word_ids \<and>
           length (rows word_ids) = length inputs \<and>
           length (rows mask) = length inputs \<and>
           length (rows type_ids) = length inputs \<and>
           (\<forall>r<length inputs.
              length (row_ids self (inputs ! r)) \<le> ncols word_ids \<and>
              rows word_ids ! r
                = row_ids self (inputs ! r)
                  @ replicate (ncols word_ids - length (row_ids self (inputs ! r))) 0 \<and>
              rows mask ! r
                = replicate (length (row_ids self (inputs ! r))) 1
                  @ replicate (ncols word_ids - length (row_ids self (inputs ! r))) 0 \<and>
              rows type_ids ! r = replicate (ncols word_ids) 0)"
proof -
  let ?w = "to_tensor (map (row_ids self) inputs)"
  let ?m = "to_tensor (map (\<lambda>s. replicate (length (row_ids self s)) 1) inputs)"
  let ?t = "to_tensor (map (\<lambda>s. replicate (length (row_ids self s)) 0) inputs)"
  let ?W = "foldr max (map length (map (row_ids self) inputs)) 0"
  have res: "fst (text_call self inputs)
             = Inr [(''input_word_ids'', ?w), (''input_mask'', ?m), (''input_type_ids'', ?t)]"
    by (simp add: text_call_def bert_encode_items [OF assms])
  have nw: "ncols ?w = ?W" by (rule to_tensor_ncols)
  have nm: "ncols ?m = ?W"
    by (simp only: to_tensor_ncols) (rule width_map, simp)
  have nt: "ncols ?t = ?W"
    by (simp only: to_tensor_ncols) (rule width_map, simp)
  have rw: "rows ?w = map (\<lambda>s. row_ids self s @ replicate (?W - length (row_ids self s)) 0) inputs"
    by (simp add: to_tensor_rows comp_def)
  have rm: "rows ?m = map (\<lambda>s. replicate (length (row_ids self s)) 1
                              @ replicate (?W - length (row_ids self s)) 0) inputs"
    using nm by (simp add: to_tensor_rows to_tensor_ncols comp_def)
  have rt: "rows ?t = map (\<lambda>s. replicate (length (row_ids self s)) 0
                              @ replicate (?W - length (row_ids self s)) 0) inputs"
    using nt by (simp add: to_tensor_rows to_tensor_ncols comp_def)
  have le: "length (row_ids self (inputs ! r)) \<le> ?W" if "r < length inputs" for r
    by (rule width_ge) (use that in simp)
  have zeros: "rows ?t ! r = replicate ?W 0" if "r < length inputs" for r
    using le [OF that] that by (simp add: rt replicate_add [symmetric])
  have rowwise: "\<forall>r<length inputs.
              length (row_ids self (inputs ! r)) \<le> ncols ?w \<and>
              rows ?w ! r
                = row_ids self (inputs ! r)
                  @ replicate (ncols ?w - length (row_ids self (inputs ! r))) 0 \<and>
              rows ?m ! r
                = replicate (length (row_ids self (inputs ! r))) 1
                  @ replicate (ncols ?w - length (row_ids self (inputs ! r))) 0 \<and>
              rows ?t ! r = replicate (ncols ?w) 0"
  proof (intro allI impI conjI)
    fix r assume r: "r < length inputs"
    show "length (row_ids self (inputs ! r)) \<le> ncols ?w" using le [OF r] by (simp only: nw)
    show "rows ?w ! r = row_ids self (inputs ! r)
            @ replicate (ncols ?w - length (row_ids self (inputs ! r))) 0"
      using r by (simp only: nw) (simp add: rw)
    show "rows ?m ! r = replicate (length (row_ids self (inputs ! r))) 1
            @ replicate (ncols ?w - length (row_ids self (inputs ! r))) 0"
      using r by (simp only: nw) (simp add: rm)
    show "rows ?t ! r = replicate (ncols ?w) 0"
      using zeros [OF r] by (simp only: nw)
  qed
  have shape: "ncols ?m = ncols ?w" "ncols ?t = ncols ?w"
    "length (rows ?w) = length inputs" "length (rows ?m) = length inputs"
    "length (rows ?t) = length inputs"
    by (simp_all only: nm nw nt) (simp_all add: rw rm rt)
  show ?thesis
    by (rule exI [of _ ?w], rule exI [of _ ?m], rule exI [of _ ?t])
       (intro conjI res shape rowwise)
qed

lemma elementwise_dtype:
  assumes "inputs \<noteq> []"
    and "\<forall>tokens. convert_tokens_to_ids (tokenizer self) tokens = map token_id tokens"
    and "\<forall>token. - (2 ^ 31) \<le> token_id token \<and> token_id token < 2 ^ 31"
  shows "infer_dtype (map (encode_sentence self) inputs) = Inr Int32"
    and "infer_dtype (replicate (length inputs)
                        (convert_tokens_to_ids (tokenizer self) [''[CLS]''])) = Inr Int32"
proof -
  obtain s rest where inputs: "inputs = s # rest" using assms(1) by (cases inputs) auto
  have range: "list_all (\<lambda>v. - (2 ^ 31) \<le> v \<and> v < 2 ^ 31) (map token_id tokens)" for tokens
    using assms(3) by (simp add: list_all_iff)
  have row: "encode_sentence self s' = map token_id (tokenize (tokenizer self) s' @ [''[SEP]''])"
    for s'
    by (simp add: encode_sentence_def assms(2))
  show "infer_dtype (map (encode_sentence self) inputs) = Inr Int32"
  proof (rule infer_dtype_Int32)
    show "concat (map (encode_sentence self) inputs) \<noteq> []"
      by (simp add: inputs row)
    show "list_all (\<lambda>v. - (2 ^ 31) \<le> v \<and> v < 2 ^ 31) (concat (map (encode_sentence self) inputs))"
      using assms(3) by (auto simp: list_all_iff row)
  qed
  show "infer_dtype (replicate (length inputs)
                        (convert_tokens_to_ids (tokenizer self) [''[CLS]''])) = Inr Int32"
  proof (rule infer_dtype_Int32)
    show "concat (replicate (length inputs) (convert_tokens_to_ids (tokenizer self) [''[CLS]''])) \<noteq> []"
      by (simp add: inputs assms(2))
    show "list_all (\<lambda>v. - (2 ^ 31) \<le> v \<and> v < 2 ^ 31)
            (concat (replicate (length inputs) (convert_tokens_to_ids (tokenizer self) [''[CLS]''])))"
      using assms(3) by (auto simp: list_all_iff assms(2))
  qed
qed

section \<open>The claims\<close>







text \<open>
  Claim C6. Let \<open>i\<close> be a column position whose encoding is \<^verbatim>\<open>"one-hot"\<close>, in any
  encoding list. For that entry \<^verbatim>\<open>__init__\<close> appends \<^verbatim>\<open>None\<close>, as it does for
  \<^verbatim>\<open>"none"\<close>: it makes the same layers as with \<^verbatim>\<open>"none"\<close> at position \<open>i\<close>. With
  \<^verbatim>\<open>"none"\<close> in the place of \<^verbatim>\<open>"one-hot"\<close> at position \<open>i\<close>, \<^verbatim>\<open>call\<close> gives the same
  result or error on every input and \<^verbatim>\<open>adapt\<close> leaves the same layers: the column is
  treated exactly like a \<^verbatim>\<open>"none"\<close> column. Whenever \<^verbatim>\<open>call\<close> returns, the result has
  one column for each layer and is not wider than the batch, so no column is made into
  a one-hot vector; and when the entries at positions \<open>0..i\<close> are all among the three
  tags, the layer at position \<open>i\<close> is \<^verbatim>\<open>None\<close> and every value of column \<open>i\<close> of the
  result is the number that the string at the same place of the batch denotes, with 0
  in the place of NaN.
\<close>

theorem one_hot_column_is_number_column:
  assumes "i < length (encoding self)" and "encoding self ! i = ONE_HOT"
  shows "init_step fw layers (encoding self ! i) = layers @ [None] \<and>
         init_step fw layers (encoding self ! i) = init_step fw layers NONE \<and>
         encoding_layers (init fw ((encoding self)[i := NONE]) kwargs)
           = encoding_layers (init fw (encoding self) kwargs) \<and>
         fst (call fw (self\<lparr>encoding := (encoding self)[i := NONE]\<rparr>) inputs)
           = fst (call fw self inputs) \<and>
         fst (adapt fw (self\<lparr>encoding := (encoding self)[i := NONE]\<rparr>) data)
           = fst (adapt fw self data) \<and>
         encoding_layers (snd (adapt fw (self\<lparr>encoding := (encoding self)[i := NONE]\<rparr>) data))
           = encoding_layers (snd (adapt fw self data)) \<and>
         (reachable fw self \<longrightarrow>
            (\<forall>x others out.
               flatten inputs = x # others \<and> fst (call fw self inputs) = Inr out \<longrightarrow>
               ncols out = length (encoding_layers self) \<and> ncols out \<le> ncols x \<and>
               (list_all known_tag (take (Suc i) (encoding self)) \<longrightarrow>
                  encoding_layers self ! i = None \<and>
                  (\<forall>r<length (rows x). \<exists>v. to_number fw (rows x ! r ! i) = Some v \<and>
                     rows out ! r ! i = (if is_nan fw v then zero fw else v)))))"
proof -
  have step: "init_step fw layers (encoding self ! i) = layers @ [None]"
    by (simp add: assms(2) init_step_def NONE_def INT_tag_def ONE_HOT_def)
  have none: "init_step fw layers NONE = layers @ [None]"
    by (simp add: init_step_def)
  have same: "encoding_layers (init fw ((encoding self)[i := NONE]) kwargs)
              = encoding_layers (init fw (encoding self) kwargs)"
    using init_layers_update [OF assms, of fw] by (simp add: init_def)
  have c: "fst (call fw (self\<lparr>encoding := (encoding self)[i := NONE]\<rparr>) inputs)
           = fst (call fw self inputs)"
    by (rule call_encoding_length) simp
  note a = adapt_encoding [of fw "(encoding self)[i := NONE]" self data]
  have vals: "ncols out = length (encoding_layers self) \<and> ncols out \<le> ncols x \<and>
               (list_all known_tag (take (Suc i) (encoding self)) \<longrightarrow>
                  encoding_layers self ! i = None \<and>
                  (\<forall>r<length (rows x). \<exists>v. to_number fw (rows x ! r ! i) = Some v \<and>
                     rows out ! r ! i = (if is_nan fw v then zero fw else v)))"
    if r: "reachable fw self" and f: "flatten inputs = x # others"
      and o: "fst (call fw self inputs) = Inr out" for x others out
  proof -
    note v = column_value [OF f o reachable_take [OF r, symmetric]]
    have w: "ncols out = length (encoding_layers self)" using v(4) by simp
    have le: "ncols out \<le> ncols x"
      using w v(1) reachable_length_le [OF r] by simp
    have k: "encoding_layers self ! i = None \<and>
             (\<forall>r<length (rows x). \<exists>v. to_number fw (rows x ! r ! i) = Some v \<and>
                rows out ! r ! i = (if is_nan fw v then zero fw else v))"
      if known: "list_all known_tag (take (Suc i) (encoding self))"
    proof -
      note p = reachable_prefix [OF r assms(1) known]
      have layer: "encoding_layers self ! i = None"
        using p(2) assms(2) by (simp add: ONE_HOT_def INT_tag_def)
      show ?thesis
        using layer number_column_values [OF r f o p(1) layer] by blast
    qed
    show ?thesis using w le k by blast
  qed
  have last: "reachable fw self \<longrightarrow>
            (\<forall>x others out.
               flatten inputs = x # others \<and> fst (call fw self inputs) = Inr out \<longrightarrow>
               ncols out = length (encoding_layers self) \<and> ncols out \<le> ncols x \<and>
               (list_all known_tag (take (Suc i) (encoding self)) \<longrightarrow>
                  encoding_layers self ! i = None \<and>
                  (\<forall>r<length (rows x). \<exists>v. to_number fw (rows x ! r ! i) = Some v \<and>
                     rows out ! r ! i = (if is_nan fw v then zero fw else v))))"
  proof (intro impI allI)
    fix x others out
    assume r: "reachable fw self"
      and "flatten inputs = x # others \<and> fst (call fw self inputs) = Inr out"
    then have "flatten inputs = x # others" and "fst (call fw self inputs) = Inr out"
      by simp_all
    from vals [OF r this]
    show "ncols out = length (encoding_layers self) \<and> ncols out \<le> ncols x \<and>
               (list_all known_tag (take (Suc i) (encoding self)) \<longrightarrow>
                  encoding_layers self ! i = None \<and>
                  (\<forall>r<length (rows x). \<exists>v. to_number fw (rows x ! r ! i) = Some v \<and>
                     rows out ! r ! i = (if is_nan fw v then zero fw else v)))" .
  qed
  have step': "init_step fw layers (encoding self ! i) = init_step fw layers NONE"
    by (simp only: step none)
  show ?thesis
    by (intro conjI step step' same c a [THEN conjunct1] a [THEN conjunct2] last)
qed

theorem one_hot_column_witness:
  "fst (call toy
          (snd (adapt toy (init toy [''int'', ''one-hot''] [])
                  [\<lparr>ncols = 2, rows = [[''a'', ''1''], [''b'', ''2'']]\<rparr>]))
          (Leaf \<lparr>ncols = 2, rows = [[''a'', ''nan''], [''b'', ''3'']]\<rparr>))
     = Inr \<lparr>ncols = 2, rows = [[Num 2, Num 0], [Num 3, Num 3]]\<rparr> \<and>
   fst (call toy
          (snd (adapt toy (init toy [''int'', ''none''] [])
                  [\<lparr>ncols = 2, rows = [[''a'', ''1''], [''b'', ''2'']]\<rparr>]))
          (Leaf \<lparr>ncols = 2, rows = [[''a'', ''nan''], [''b'', ''3'']]\<rparr>))
     = Inr \<lparr>ncols = 2, rows = [[Num 2, Num 0], [Num 3, Num 3]]\<rparr>"
proof -
  let ?data = "[\<lparr>ncols = 2, rows = [[''a'', ''1''], [''b'', ''2'']]\<rparr>]"
  let ?self = "snd (adapt toy (init toy [''int'', ''one-hot''] []) ?data)"
  let ?none = "snd (adapt toy (init toy [''int'', ''none''] []) ?data)"
  let ?inputs = "Leaf \<lparr>ncols = 2, rows = [[''a'', ''nan''], [''b'', ''3'']]\<rparr>"
  have e: "encoding ?self = [''int'', ''one-hot'']" by (simp add: adapt_snd init_def)
  have i: "1 < length (encoding ?self)" by (simp add: e)
  have t: "encoding ?self ! 1 = ONE_HOT" by (simp add: e ONE_HOT_def)
  have same: "?self\<lparr>encoding := (encoding ?self)[1 := NONE]\<rparr> = ?none" by code_simp
  have ev: "fst (call toy ?self ?inputs)
            = Inr \<lparr>ncols = 2, rows = [[Num 2, Num 0], [Num 3, Num 3]]\<rparr>"
    by code_simp
  have "fst (call toy (?self\<lparr>encoding := (encoding ?self)[1 := NONE]\<rparr>) ?inputs)
        = fst (call toy ?self ?inputs)"
    by (rule one_hot_column_is_number_column [OF i t,
          THEN conjunct2, THEN conjunct2, THEN conjunct2, THEN conjunct1])
  then have "fst (call toy ?none ?inputs) = fst (call toy ?self ?inputs)"
    by (simp only: same)
  then show ?thesis using ev by simp
qed




text \<open>
  Claim C7, as amended. For every layer object: when every entry of the encoding list
  is one of \<^verbatim>\<open>"none"\<close>, \<^verbatim>\<open>"int"\<close>, \<^verbatim>\<open>"one-hot"\<close>, there are as many layers as entries,
  after any sequence of \<^verbatim>\<open>build\<close>, \<^verbatim>\<open>call\<close> and \<^verbatim>\<open>adapt\<close>. \<^verbatim>\<open>__init__\<close> appends nothing for
  an entry outside that set; so when there is such an entry, there are fewer layers
  than entries, and \<^verbatim>\<open>call\<close>, on a batch of the right width on which no conversion
  and no lookup raises, pairs the layer at position \<open>j\<close> with column \<open>j\<close>, whatever the
  encoding of that column, and returns one column for each layer, dropping the
  trailing columns; it raises no error for the misalignment, but when no layer is left
  at all, the concatenation of no columns raises.
\<close>

theorem layers_align_iff_tags_known:
  assumes "reachable fw self"
  shows "(list_all known_tag (encoding self) \<longrightarrow>
            length (encoding_layers self) = length (encoding self)) \<and>
         (\<forall>e layers. \<not> known_tag e \<longrightarrow> init_step fw layers e = layers) \<and>
         (\<not> list_all known_tag (encoding self) \<longrightarrow>
            length (encoding_layers self) < length (encoding self) \<and>
            (\<forall>inputs x others.
               flatten inputs = x # others \<and> ncols x = length (encoding self) \<and>
               columns_ok fw (encoding_layers self) x \<longrightarrow>
               fst (call fw self inputs) =
                 (if encoding_layers self = [] then Inl ValueError
                  else Inr \<lparr>ncols = length (encoding_layers self),
                            rows = encoded_rows fw (encoding_layers self) x\<rparr>)))"
proof (intro conjI impI allI)
  assume "list_all known_tag (encoding self)"
  then show "length (encoding_layers self) = length (encoding self)"
    by (rule known_layers(1) [OF assms])
next
  fix e and layers :: "'b option list"
  assume "\<not> known_tag e"
  then show "init_step fw layers e = layers" by (rule unknown_tag_step)
next
  assume "\<not> list_all known_tag (encoding self)"
  then show "length (encoding_layers self) < length (encoding self)"
    using init_layers_length_less [of "encoding self" fw] reachable_length [OF assms]
    by (simp add: init_layers_append)
next
  fix inputs x others
  assume u: "\<not> list_all known_tag (encoding self)"
  assume a: "flatten inputs = x # others \<and> ncols x = length (encoding self) \<and>
             columns_ok fw (encoding_layers self) x"
  then have f: "flatten inputs = x # others" and n: "ncols x = length (encoding self)"
    and p: "columns_ok fw (encoding_layers self) x" by simp_all
  have ne: "encoding self \<noteq> []" using u by auto
  show "fst (call fw self inputs) =
          (if encoding_layers self = [] then Inl ValueError
           else Inr \<lparr>ncols = length (encoding_layers self),
                     rows = encoded_rows fw (encoding_layers self) x\<rparr>)"
    by (rule call_fst_cases(1) [OF f n ne reachable_take [OF assms, symmetric] p])
qed

theorem layers_align_witness:
  "length (encoding_layers (init toy [''none'', ''int'', ''one-hot''] []))
     = length (encoding (init toy [''none'', ''int'', ''one-hot''] [])) \<and>
   length (encoding_layers (init toy [''bogus'', ''int'', ''none''] []))
     < length (encoding (init toy [''bogus'', ''int'', ''none''] [])) \<and>
   fst (call toy
          (snd (adapt toy (init toy [''bogus'', ''int'', ''none''] [])
                  [\<lparr>ncols = 3, rows = [[''a'', ''1'', ''2'']]\<rparr>]))
          (Leaf \<lparr>ncols = 3, rows = [[''a'', ''7'', ''8'']]\<rparr>))
     = Inr \<lparr>ncols = 2, rows = [[Num 2, Num 7]]\<rparr>"
proof -
  let ?good = "init toy [''none'', ''int'', ''one-hot''] []"
  let ?bad = "init toy [''bogus'', ''int'', ''none''] []"
  let ?adapted = "snd (adapt toy ?bad [\<lparr>ncols = 3, rows = [[''a'', ''1'', ''2'']]\<rparr>])"
  let ?x = "\<lparr>ncols = 3, rows = [[''a'', ''7'', ''8'']]\<rparr>"
  have g: "list_all known_tag (encoding ?good)" by code_simp
  have b: "\<not> list_all known_tag (encoding ?bad)" by code_simp
  have b': "\<not> list_all known_tag (encoding ?adapted)" by code_simp
  have r: "reachable toy ?adapted" by (rule reachable_adapt) (rule reachable_init)
  have f: "flatten (Leaf ?x) = ?x # []" by simp
  have n: "ncols ?x = length (encoding ?adapted)" by (simp add: adapt_snd init_def)
  have p: "columns_ok toy (encoding_layers ?adapted) ?x" by code_simp
  have ne: "encoding_layers ?adapted \<noteq> []" by code_simp
  have e: "\<lparr>ncols = length (encoding_layers ?adapted),
            rows = encoded_rows toy (encoding_layers ?adapted) ?x\<rparr>
           = \<lparr>ncols = 2, rows = [[Num 2, Num 7]]\<rparr>" by code_simp
  have 1: "length (encoding_layers ?good) = length (encoding ?good)"
    using layers_align_iff_tags_known [OF reachable_init, of toy "[''none'', ''int'', ''one-hot'']" "[]"] g
    by blast
  have 2: "length (encoding_layers ?bad) < length (encoding ?bad)"
    using layers_align_iff_tags_known [OF reachable_init, of toy "[''bogus'', ''int'', ''none'']" "[]"] b
    by blast
  have "fst (call toy ?adapted (Leaf ?x)) =
          (if encoding_layers ?adapted = [] then Inl ValueError
           else Inr \<lparr>ncols = length (encoding_layers ?adapted),
                     rows = encoded_rows toy (encoding_layers ?adapted) ?x\<rparr>)"
    using layers_align_iff_tags_known [OF r] b' f n p by blast
  then have 3: "fst (call toy ?adapted (Leaf ?x)) = Inr \<lparr>ncols = 2, rows = [[Num 2, Num 7]]\<rparr>"
    using ne by (simp only: e if_False)
  show ?thesis using 1 2 3 by (intro conjI)
qed

theorem layers_align_counterexample:
  "\<not> list_all known_tag (encoding (init toy [''bogus''] [])) \<and>
   fst (call toy (init toy [''bogus''] [])
          (Leaf \<lparr>ncols = 1, rows = [[''7'']]\<rparr>)) = Inl ValueError \<and>
   \<not> list_all known_tag (encoding (init toy [''none'', ''bogus''] [])) \<and>
   encoding_layers (init toy [''none'', ''bogus''] []) = [None] \<and>
   fst (call toy (init toy [''none'', ''bogus''] [])
          (Leaf \<lparr>ncols = 2, rows = [[''nan'', ''8'']]\<rparr>))
     = Inr \<lparr>ncols = 1, rows = [[Num 0]]\<rparr>"
  by code_simp

text \<open>
  Claim C3, as amended. Let \<open>i\<close> be a column position whose encoding is \<^verbatim>\<open>"int"\<close>, with
  every entry of the encoding list at positions \<open>0..i\<close> one of \<^verbatim>\<open>"none"\<close>, \<^verbatim>\<open>"int"\<close>,
  \<^verbatim>\<open>"one-hot"\<close>. Then the layer object has a lookup layer at position \<open>i\<close>, and when
  \<^verbatim>\<open>adapt\<close> ends without an error, that layer has been fit on the slices of width 1 of
  the batches of the dataset at column \<open>i\<close>, and on nothing else. A position whose layer
  is \<^verbatim>\<open>None\<close> keeps \<^verbatim>\<open>None\<close>, whether \<^verbatim>\<open>adapt\<close> ends with an error or not. \<^verbatim>\<open>adapt\<close>
  ends without an error exactly when every batch has a column at every position that
  has a lookup layer.
\<close>

theorem adapt_fits_lookup_on_own_column:
  assumes "reachable fw self" and "i < length (encoding self)"
    and "encoding self ! i = INT_tag"
    and "list_all known_tag (take (Suc i) (encoding self))"
  shows "(\<exists>l. encoding_layers self ! i = Some l \<and>
            (fst (adapt fw self data) = None \<longrightarrow>
               (\<exists>data_column.
                  dataset_map (\<lambda>x. slice x i) data = Inr data_column \<and>
                  data_column = map (\<lambda>x. column x i) data \<and>
                  encoding_layers (snd (adapt fw self data)) ! i
                    = Some (sl_adapt fw l data_column)))) \<and>
         (\<forall>j<length (encoding_layers self). encoding_layers self ! j = None \<longrightarrow>
            encoding_layers (snd (adapt fw self data)) ! j = None) \<and>
         encoding (snd (adapt fw self data)) = encoding self \<and>
         ((fst (adapt fw self data) = None) =
            list_all (sliceable data) (enumerate 0 (encoding_layers self)))"
proof -
  note p = reachable_prefix [OF assms(1,2,4)]
  obtain l where l: "encoding_layers self ! i = Some l"
    using p(2) assms(3) by auto
  have fit: "\<exists>data_column.
               dataset_map (\<lambda>x. slice x i) data = Inr data_column \<and>
               data_column = map (\<lambda>x. column x i) data \<and>
               encoding_layers (snd (adapt fw self data)) ! i = Some (sl_adapt fw l data_column)"
    if ok: "fst (adapt fw self data) = None"
  proof -
    have "list_all (\<lambda>x. i < ncols x) data"
      using adapt_layer(2) [OF ok p(1)] l by simp
    then have "dataset_map (\<lambda>x. slice x i) data = Inr (map (\<lambda>x. column x i) data)"
      by (simp add: dataset_map_slice)
    then show ?thesis using adapt_layer(1) [OF ok p(1)] l by simp
  qed
  have enc: "encoding (snd (adapt fw self data)) = encoding self"
    by (simp add: adapt_snd)
  have ret: "(fst (adapt fw self data) = None) =
               list_all (sliceable data) (enumerate 0 (encoding_layers self))"
    by (simp add: adapt_fst adapt_loop_fst)
  have none: "\<forall>j<length (encoding_layers self). encoding_layers self ! j = None \<longrightarrow>
                encoding_layers (snd (adapt fw self data)) ! j = None"
    using adapt_none by blast
  have first: "\<exists>l. encoding_layers self ! i = Some l \<and>
            (fst (adapt fw self data) = None \<longrightarrow>
               (\<exists>data_column.
                  dataset_map (\<lambda>x. slice x i) data = Inr data_column \<and>
                  data_column = map (\<lambda>x. column x i) data \<and>
                  encoding_layers (snd (adapt fw self data)) ! i
                    = Some (sl_adapt fw l data_column)))"
    by (intro exI [of _ l] conjI impI) (rule l, erule fit)
  show ?thesis using first none enc ret by (intro conjI)
qed

theorem adapt_fits_witness:
  "encoding_layers
     (snd (adapt toy (init toy [''none'', ''int''] ([]::(string \<times> string) list))
             [\<lparr>ncols = 2, rows = [[''1'', ''a''], [''2'', ''b'']]\<rparr>,
              \<lparr>ncols = 2, rows = [[''3'', ''a'']]\<rparr>]))
     = [None, Some (sl_adapt toy (StringLookup toy)
                      [\<lparr>ncols = 1, rows = [[''a''], [''b'']]\<rparr>, \<lparr>ncols = 1, rows = [[''a'']]\<rparr>])]"
proof -
  let ?self = "init toy [''none'', ''int''] ([]::(string \<times> string) list)"
  let ?data = "[\<lparr>ncols = 2, rows = [[''1'', ''a''], [''2'', ''b'']]\<rparr>,
                \<lparr>ncols = 2, rows = [[''3'', ''a'']]\<rparr>]"
  have r: "reachable toy ?self" by (rule reachable_init)
  have i: "1 < length (encoding ?self)" by (simp add: init_def)
  have t: "encoding ?self ! 1 = INT_tag" by (simp add: init_def INT_tag_def)
  have k: "list_all known_tag (take (Suc 1) (encoding ?self))"
    by (simp add: init_def known_tag_def NONE_def INT_tag_def)
  have ok: "fst (adapt toy ?self ?data) = None" by code_simp
  have ls: "encoding_layers ?self = [None, Some (StringLookup toy)]" by code_simp
  have cols: "map (\<lambda>x. column x 1) ?data
              = [\<lparr>ncols = 1, rows = [[''a''], [''b'']]\<rparr>, \<lparr>ncols = 1, rows = [[''a'']]\<rparr>]"
    by (simp add: column_def)
  have len: "length (encoding_layers (snd (adapt toy ?self ?data))) = 2" by code_simp
  from adapt_fits_lookup_on_own_column [OF r i t k, of ?data] ok
  obtain l where l: "encoding_layers ?self ! 1 = Some l"
    and new: "encoding_layers (snd (adapt toy ?self ?data)) ! 1
              = Some (sl_adapt toy l (map (\<lambda>x. column x 1) ?data))"
    and none: "\<forall>j<length (encoding_layers ?self). encoding_layers ?self ! j = None \<longrightarrow>
                 encoding_layers (snd (adapt toy ?self ?data)) ! j = None"
    by blast
  have l': "l = StringLookup toy" using l by (simp add: ls)
  have zero: "encoding_layers (snd (adapt toy ?self ?data)) ! 0 = None"
    using none [rule_format, of 0] by (simp add: ls)
  have one: "encoding_layers (snd (adapt toy ?self ?data)) ! 1
             = Some (sl_adapt toy (StringLookup toy)
                       [\<lparr>ncols = 1, rows = [[''a''], [''b'']]\<rparr>, \<lparr>ncols = 1, rows = [[''a'']]\<rparr>])"
    using new by (simp only: l' cols)
  show ?thesis
    by (rule nth_equalityI) (use len zero one in \<open>auto simp: less_Suc_eq numeral_2_eq_2\<close>)
qed

theorem adapt_fits_counterexample:
  "encoding (init toy [''bogus'', ''int''] ([]::(string \<times> string) list)) ! 1 = INT_tag \<and>
   encoding_layers
     (snd (adapt toy (init toy [''bogus'', ''int''] ([]::(string \<times> string) list))
             [\<lparr>ncols = 2, rows = [[''a'', ''b'']]\<rparr>]))
     = [Some (sl_adapt toy (StringLookup toy) [\<lparr>ncols = 1, rows = [[''a'']]\<rparr>])] \<and>
   sl_adapt toy (StringLookup toy) [\<lparr>ncols = 1, rows = [[''a'']]\<rparr>]
     \<noteq> sl_adapt toy (StringLookup toy)
         (map (\<lambda>x. column x 1) [\<lparr>ncols = 2, rows = [[''a'', ''b'']]\<rparr>])"
  by code_simp

text \<open>
  Claim C8. For every layer object, the configuration that \<^verbatim>\<open>get_config\<close> returns has the
  key \<^verbatim>\<open>encoding\<close> with the layer's encoding list as its value, and making a layer from
  that configuration succeeds and gives a layer with the same encoding list and, position
  by position, a lookup layer where the first has one and \<^verbatim>\<open>None\<close> where it has
  \<^verbatim>\<open>None\<close>.
\<close>

theorem config_round_trip:
  assumes "reachable fw self"
  shows "map_of (get_config self) ''encoding'' = Some (EncodingValue (encoding self)) \<and>
         (\<exists>self'. from_config fw (get_config self) = Inr self' \<and>
            encoding self' = encoding self \<and>
            map (\<lambda>l. l = None) (encoding_layers self')
              = map (\<lambda>l. l = None) (encoding_layers self))"
proof -
  let ?kwargs = "List.map_filter (\<lambda>(k, v). case v of BaseValue c \<Rightarrow> Some (k, c) | _ \<Rightarrow> None)
                   (AList.delete ''encoding'' (get_config self))"
  have f: "from_config fw (get_config self) = Inr (init fw (encoding self) ?kwargs)"
    by (simp add: from_config_def get_config_encoding)
  have e: "encoding (init fw (encoding self) ?kwargs) = encoding self"
    by (simp add: init_def)
  have l: "map (\<lambda>l. l = None) (encoding_layers (init fw (encoding self) ?kwargs))
           = map (\<lambda>l. l = None) (encoding_layers self)"
    using reachable_encoding_layers [OF assms] by (simp add: init_def)
  show ?thesis using get_config_encoding f e l by blast
qed

theorem config_round_trip_witness:
  "from_config toy
     (get_config (snd (adapt toy (init toy [''none'', ''int''] [(''name'', ''layer'')])
                         [\<lparr>ncols = 2, rows = [[''1'', ''a'']]\<rparr>])))
   = Inr \<lparr>encoding = [''none'', ''int''], encoding_layers = [None, Some None],
          base_config = [(''name'', ''layer''), (''trainable'', ''True''),
                         (''dtype'', ''float32'')]\<rparr>"
proof -
  let ?self = "snd (adapt toy (init toy [''none'', ''int''] [(''name'', ''layer'')])
                         [\<lparr>ncols = 2, rows = [[''1'', ''a'']]\<rparr>])"
  have r: "reachable toy ?self" by (rule reachable_adapt) (rule reachable_init)
  have ev: "from_config toy (get_config ?self)
            = Inr \<lparr>encoding = [''none'', ''int''], encoding_layers = [None, Some None],
                   base_config = [(''name'', ''layer''), (''trainable'', ''True''),
                                  (''dtype'', ''float32'')]\<rparr>"
    by code_simp
  from config_round_trip [OF r]
  obtain self' where "from_config toy (get_config ?self) = Inr self'"
    and "encoding self' = encoding ?self" by blast
  then show ?thesis using ev by simp
qed


text \<open>
  Claim C5. The name \<^verbatim>\<open>MultiColumnCategoricalEncoding\<close> not being a builtin: the first
  eight statements of the module run and bind, last, \<^verbatim>\<open>MultiCategoryEncoding\<close>; the
  ninth is the definition of \<^verbatim>\<open>CUSTOM_OBJECTS\<close>, and there the evaluation of the module
  ends with a \<^verbatim>\<open>NameError\<close> for \<^verbatim>\<open>MultiColumnCategoricalEncoding\<close>, before the tenth
  statement, which would bind \<^verbatim>\<open>TextVectorizationWithTokenizer\<close>; an import of the module
  gives that error and no namespace. No statement of the module binds
  \<^verbatim>\<open>MultiColumnCategoricalEncoding\<close> or \<^verbatim>\<open>index_lookup\<close>.
\<close>

theorem module_top_level_raises_NameError:
  assumes "''MultiColumnCategoricalEncoding'' \<notin> set builtins"
  shows "exec_module builtins [] (take 8 keras_layers)
           = Inr [''np'', ''tf'', ''preprocessing'', ''nest'', ''INT'', ''NONE'', ''ONE_HOT'',
                  ''MultiCategoryEncoding''] \<and>
         keras_layers ! 8
           = Assign ''CUSTOM_OBJECTS'' [''MultiColumnCategoricalEncoding'', ''index_lookup''] \<and>
         exec_module builtins [] keras_layers
           = Inl (NameError ''MultiColumnCategoricalEncoding'',
                  [''np'', ''tf'', ''preprocessing'', ''nest'', ''INT'', ''NONE'', ''ONE_HOT'',
                   ''MultiCategoryEncoding'']) \<and>
         import_module builtins keras_layers = Inl (NameError ''MultiColumnCategoricalEncoding'') \<and>
         ''MultiColumnCategoricalEncoding'' \<notin> set (map binds keras_layers) \<and>
         ''index_lookup'' \<notin> set (map binds keras_layers) \<and>
         binds (keras_layers ! 9) = ''TextVectorizationWithTokenizer''"
proof -
  let ?ns = "[''np'', ''tf'', ''preprocessing'', ''nest'', ''INT'', ''NONE'', ''ONE_HOT'',
              ''MultiCategoryEncoding'']"
  let ?rest = "[Assign ''CUSTOM_OBJECTS'' [''MultiColumnCategoricalEncoding'', ''index_lookup''],
                ClassDef ''TextVectorizationWithTokenizer'' [''preprocessing'']]"
  have parts: "keras_layers = take 8 keras_layers @ ?rest"
    by (simp add: keras_layers_def)
  have fresh: "''MultiColumnCategoricalEncoding'' \<notin> set ?ns" by simp
  have raise: "exec_stmt builtins ?ns
                 (Assign ''CUSTOM_OBJECTS'' [''MultiColumnCategoricalEncoding'', ''index_lookup''])
               = Inl (NameError ''MultiColumnCategoricalEncoding'')"
    by (rule exec_stmt_unbound [OF _ fresh assms]) simp
  have 2: "exec_module builtins [] keras_layers
           = Inl (NameError ''MultiColumnCategoricalEncoding'', ?ns)"
    by (subst parts) (simp only: exec_module_append exec_first_eight sum.case exec_module.simps raise)
  have 3: "import_module builtins keras_layers = Inl (NameError ''MultiColumnCategoricalEncoding'')"
    by (simp only: import_module_def 2 sum.case prod.case)
  have 4: "keras_layers ! 8
           = Assign ''CUSTOM_OBJECTS'' [''MultiColumnCategoricalEncoding'', ''index_lookup'']"
    "''MultiColumnCategoricalEncoding'' \<notin> set (map binds keras_layers)"
    "''index_lookup'' \<notin> set (map binds keras_layers)"
    "binds (keras_layers ! 9) = ''TextVectorizationWithTokenizer''"
    by (simp_all add: keras_layers_def)
  show ?thesis using exec_first_eight [of builtins] 2 3 4 by (intro conjI)
qed

theorem module_top_level_witness:
  "import_module some_builtins keras_layers = Inl (NameError ''MultiColumnCategoricalEncoding'')"
proof -
  have "''MultiColumnCategoricalEncoding'' \<notin> set some_builtins"
    by (simp add: some_builtins_def)
  from module_top_level_raises_NameError [OF this] show ?thesis by (elim conjE)
qed

text \<open>
  Claim C9, as amended. The text layer's \<^verbatim>\<open>call\<close> returns exactly when the batch has
  at least one sentence and the ids of the sentences and the ids of \<^verbatim>\<open>[CLS]\<close> are given
  one dtype; that is so whenever the batch has at least one sentence and the tokenizer
  converts token by token to ids in the range of \<^verbatim>\<open>int32\<close>. Whenever it returns, the
  result is a dictionary with exactly the keys \<^verbatim>\<open>input_word_ids\<close>, \<^verbatim>\<open>input_mask\<close> and
  \<^verbatim>\<open>input_type_ids\<close>, three tensors of one shape with one row for each sentence. The row
  of a sentence in \<^verbatim>\<open>input_word_ids\<close> is the tokenizer's ids for \<^verbatim>\<open>[CLS]\<close>, then its
  ids for the tokens of the sentence followed by \<^verbatim>\<open>[SEP]\<close>, then zeros up to the length
  of the longest row; its row in \<^verbatim>\<open>input_mask\<close> is ones over those ids and zeros after
  them; its row in \<^verbatim>\<open>input_type_ids\<close> is zeros. When the tokenizer converts token by
  token, the ids are the id of \<^verbatim>\<open>[CLS]\<close>, the ids of the tokens of the sentence, and the
  id of \<^verbatim>\<open>[SEP]\<close>.
\<close>

theorem text_call_encodes_sentences:
  "((\<exists>result. fst (text_call self inputs) = Inr result) =
      (inputs \<noteq> [] \<and>
       (\<exists>t. infer_dtype (map (encode_sentence self) inputs) = Inr t \<and>
            infer_dtype (replicate (length inputs)
                           (convert_tokens_to_ids (tokenizer self) [''[CLS]''])) = Inr t))) \<and>
   (inputs \<noteq> [] \<and>
    (\<forall>tokens. convert_tokens_to_ids (tokenizer self) tokens = map token_id tokens) \<and>
    (\<forall>token. - (2 ^ 31) \<le> token_id token \<and> token_id token < 2 ^ 31) \<longrightarrow>
      (\<exists>result. fst (text_call self inputs) = Inr result)) \<and>
   (\<forall>result. fst (text_call self inputs) = Inr result \<longrightarrow>
      (\<exists>word_ids mask type_ids.
           result = [(''input_word_ids'', word_ids), (''input_mask'', mask),
                     (''input_type_ids'', type_ids)] \<and>
           ncols mask = ncols word_ids \<and> ncols type_ids = ncols word_ids \<and>
           length (rows word_ids) = length inputs \<and>
           length (rows mask) = length inputs \<and>
           length (rows type_ids) = length inputs \<and>
           (\<forall>r<length inputs.
              length (row_ids self (inputs ! r)) \<le> ncols word_ids \<and>
              rows word_ids ! r
                = row_ids self (inputs ! r)
                  @ replicate (ncols word_ids - length (row_ids self (inputs ! r))) 0 \<and>
              rows mask ! r
                = replicate (length (row_ids self (inputs ! r))) 1
                  @ replicate (ncols word_ids - length (row_ids self (inputs ! r))) 0 \<and>
              rows type_ids ! r = replicate (ncols word_ids) 0))) \<and>
   ((\<forall>tokens. convert_tokens_to_ids (tokenizer self) tokens = map token_id tokens) \<longrightarrow>
      (\<forall>s. row_ids self s
             = token_id ''[CLS]'' # map token_id (tokenize (tokenizer self) s)
               @ [token_id ''[SEP]'']))"
proof (intro conjI)
  show returns: "(\<exists>result. fst (text_call self inputs) = Inr result) =
      (inputs \<noteq> [] \<and>
       (\<exists>t. infer_dtype (map (encode_sentence self) inputs) = Inr t \<and>
            infer_dtype (replicate (length inputs)
                           (convert_tokens_to_ids (tokenizer self) [''[CLS]''])) = Inr t))"
    using bert_encode_returns [of self inputs] by (simp add: text_call_def)
  show "inputs \<noteq> [] \<and>
    (\<forall>tokens. convert_tokens_to_ids (tokenizer self) tokens = map token_id tokens) \<and>
    (\<forall>token. - (2 ^ 31) \<le> token_id token \<and> token_id token < 2 ^ 31) \<longrightarrow>
      (\<exists>result. fst (text_call self inputs) = Inr result)"
  proof
    assume a: "inputs \<noteq> [] \<and>
      (\<forall>tokens. convert_tokens_to_ids (tokenizer self) tokens = map token_id tokens) \<and>
      (\<forall>token. - (2 ^ 31) \<le> token_id token \<and> token_id token < 2 ^ 31)"
    then have ne: "inputs \<noteq> []"
      and el: "\<forall>tokens. convert_tokens_to_ids (tokenizer self) tokens = map token_id tokens"
      and rg: "\<forall>token. - (2 ^ 31) \<le> token_id token \<and> token_id token < 2 ^ 31"
      by blast+
    note d = elementwise_dtype [OF ne el rg]
    show "\<exists>result. fst (text_call self inputs) = Inr result"
      unfolding returns using ne d by blast
  qed
  show "\<forall>result. fst (text_call self inputs) = Inr result \<longrightarrow>
      (\<exists>word_ids mask type_ids.
           result = [(''input_word_ids'', word_ids), (''input_mask'', mask),
                     (''input_type_ids'', type_ids)] \<and>
           ncols mask = ncols word_ids \<and> ncols type_ids = ncols word_ids \<and>
           length (rows word_ids) = length inputs \<and>
           length (rows mask) = length inputs \<and>
           length (rows type_ids) = length inputs \<and>
           (\<forall>r<length inputs.
              length (row_ids self (inputs ! r)) \<le> ncols word_ids \<and>
              rows word_ids ! r
                = row_ids self (inputs ! r)
                  @ replicate (ncols word_ids - length (row_ids self (inputs ! r))) 0 \<and>
              rows mask ! r
                = replicate (length (row_ids self (inputs ! r))) 1
                  @ replicate (ncols word_ids - length (row_ids self (inputs ! r))) 0 \<and>
              rows type_ids ! r = replicate (ncols word_ids) 0))"
  proof (intro allI impI)
    fix result
    assume r: "fst (text_call self inputs) = Inr result"
    then have "\<exists>result. fst (text_call self inputs) = Inr result" by blast
    then obtain t where ne: "inputs \<noteq> []"
      and d: "infer_dtype (map (encode_sentence self) inputs) = Inr t"
        "infer_dtype (replicate (length inputs)
                        (convert_tokens_to_ids (tokenizer self) [''[CLS]''])) = Inr t"
      unfolding returns by blast
    from text_call_rows [OF ne d] r
    show "\<exists>word_ids mask type_ids.
           result = [(''input_word_ids'', word_ids), (''input_mask'', mask),
                     (''input_type_ids'', type_ids)] \<and>
           ncols mask = ncols word_ids \<and> ncols type_ids = ncols word_ids \<and>
           length (rows word_ids) = length inputs \<and>
           length (rows mask) = length inputs \<and>
           length (rows type_ids) = length inputs \<and>
           (\<forall>r<length inputs.
              length (row_ids self (inputs ! r)) \<le> ncols word_ids \<and>
              rows word_ids ! r
                = row_ids self (inputs ! r)
                  @ replicate (ncols word_ids - length (row_ids self (inputs ! r))) 0 \<and>
              rows mask ! r
                = replicate (length (row_ids self (inputs ! r))) 1
                  @ replicate (ncols word_ids - length (row_ids self (inputs ! r))) 0 \<and>
              rows type_ids ! r = replicate (ncols word_ids) 0)"
      by (elim exE conjE) (simp only: sum.inject, blast)
  qed
  show "(\<forall>tokens. convert_tokens_to_ids (tokenizer self) tokens = map token_id tokens) \<longrightarrow>
      (\<forall>s. row_ids self s
             = token_id ''[CLS]'' # map token_id (tokenize (tokenizer self) s)
               @ [token_id ''[SEP]''])"
    by (simp add: row_ids_def)
qed

theorem text_call_witness:
  "fst (text_call \<lparr>tokenizer = toy_tokenizer\<rparr> [''ab'', ''c''])
     = Inr [(''input_word_ids'', \<lparr>ncols = 4, rows = [[101, 5, 6, 102], [101, 7, 102, 0]]\<rparr>),
            (''input_mask'', \<lparr>ncols = 4, rows = [[1, 1, 1, 1], [1, 1, 1, 0]]\<rparr>),
            (''input_type_ids'', \<lparr>ncols = 4, rows = [[0, 0, 0, 0], [0, 0, 0, 0]]\<rparr>)] \<and>
   row_ids \<lparr>tokenizer = toy_tokenizer\<rparr> ''ab'' = [101, 5, 6, 102] \<and>
   row_ids \<lparr>tokenizer = toy_tokenizer\<rparr> ''c'' = [101, 7, 102]"
proof -
  let ?self = "\<lparr>tokenizer = toy_tokenizer\<rparr>"
  let ?id = "\<lambda>t. case map_of toy_vocab t of None \<Rightarrow> 100 | Some k \<Rightarrow> k"
  have ne: "[''ab'', ''c''] \<noteq> []" by simp
  have el: "\<forall>tokens. convert_tokens_to_ids (tokenizer ?self) tokens = map ?id tokens"
    by (simp add: toy_tokenizer_def)
  have rg: "\<forall>token. - (2 ^ 31) \<le> ?id token \<and> ?id token < 2 ^ 31"
    by (auto simp: toy_vocab_def split: option.splits)
  have ev: "fst (text_call ?self [''ab'', ''c''])
     = Inr [(''input_word_ids'', \<lparr>ncols = 4, rows = [[101, 5, 6, 102], [101, 7, 102, 0]]\<rparr>),
            (''input_mask'', \<lparr>ncols = 4, rows = [[1, 1, 1, 1], [1, 1, 1, 0]]\<rparr>),
            (''input_type_ids'', \<lparr>ncols = 4, rows = [[0, 0, 0, 0], [0, 0, 0, 0]]\<rparr>)]"
    by code_simp
  have ids: "row_ids ?self ''ab'' = [101, 5, 6, 102]" "row_ids ?self ''c'' = [101, 7, 102]"
    by code_simp+
  from text_call_encodes_sentences [of ?self "[''ab'', ''c'']" ?id] ne el rg
  obtain result where "fst (text_call ?self [''ab'', ''c'']) = Inr result"
    by blast
  then show ?thesis using ev ids by simp
qed

theorem text_call_counterexample:
  "fst (text_call \<lparr>tokenizer = toy_tokenizer\<rparr> []) = Inl AttributeError \<and>
   fst (text_call
          \<lparr>tokenizer =
             \<lparr>tokenize = (\<lambda>s. map (\<lambda>c. [c]) s),
              convert_tokens_to_ids =
                map (\<lambda>t. if t = ''[CLS]'' then 101 else 2147483648)\<rparr>\<rparr>
          [''a''])
     = Inl InvalidArgumentError"
  by (simp add: text_call_def bert_encode_def infer_dtype_def encode_sentence_def)

end
